theory Spec2Isabelle
  imports Main
begin

section \<open>RawMemory: ownership of an untyped block\<close>

text \<open>
  A \<open>RawMemory<T>\<close> object holds a pointer \<open>buffer_\<close> and a count \<open>capacity_\<close>
  (the fields \<open>rm_buffer\<close> and \<open>rm_capacity\<close> below).
  The pointer is an address (\<open>None\<close> is \<open>nullptr\<close>). The objects themselves live in
  a store indexed by object identity, because \<open>operator=(RawMemory&&)\<close> compares
  \<open>this\<close> with \<open>&rhs\<close>. The field \<open>freed\<close> lists, in order, every non-null
  address that was handed to \<open>operator delete\<close>; \<open>operator delete(nullptr)\<close>
  does nothing and is not listed.
\<close>

record RawMemory =
  rm_buffer :: "nat option"
  rm_capacity :: nat

record raw_state =
  objs :: "nat \<Rightarrow> RawMemory"
  freed :: "nat list"

definition RawMemory_default :: RawMemory where
  "RawMemory_default = \<lparr>rm_buffer = None, rm_capacity = 0\<rparr>"

definition Deallocate :: "nat option \<Rightarrow> nat list \<Rightarrow> nat list" where
  "Deallocate buf log = (case buf of None \<Rightarrow> log | Some a \<Rightarrow> log @ [a])"

definition RawMemory_Swap :: "(nat \<Rightarrow> RawMemory) \<Rightarrow> nat \<Rightarrow> nat \<Rightarrow> (nat \<Rightarrow> RawMemory)" where
  "RawMemory_Swap s this other =
     s(this := (s this)\<lparr>rm_buffer := rm_buffer (s other), rm_capacity := rm_capacity (s other)\<rparr>,
       other := (s other)\<lparr>rm_buffer := rm_buffer (s this), rm_capacity := rm_capacity (s this)\<rparr>)"

text \<open>\<open>RawMemory(RawMemory&& other)\<close>: the new object \<open>this\<close> starts from its default
  member initialisers, then \<open>Swap(other); Deallocate(other.buffer_); other.capacity_ = 0\<close>.\<close>

definition RawMemory_move :: "raw_state \<Rightarrow> nat \<Rightarrow> nat \<Rightarrow> raw_state" where
  "RawMemory_move st this other =
     (let s0 = (objs st)(this := RawMemory_default);
          s1 = RawMemory_Swap s0 this other;
          log = Deallocate (rm_buffer (s1 other)) (freed st);
          s2 = s1(other := (s1 other)\<lparr>rm_capacity := 0\<rparr>)
      in \<lparr>objs = s2, freed = log\<rparr>)"

text \<open>\<open>operator=(RawMemory&& rhs)\<close>.\<close>

definition RawMemory_assign_move :: "raw_state \<Rightarrow> nat \<Rightarrow> nat \<Rightarrow> raw_state" where
  "RawMemory_assign_move st this rhs =
     (if this \<noteq> rhs then
        (let s1 = RawMemory_Swap (objs st) this rhs;
             log = Deallocate (rm_buffer (s1 rhs)) (freed st);
             s2 = s1(rhs := (s1 rhs)\<lparr>rm_capacity := 0\<rparr>)
         in \<lparr>objs = s2, freed = log\<rparr>)
      else st)"

text \<open>\<open>~RawMemory()\<close>: \<open>if (buffer_ != nullptr) Deallocate(buffer_)\<close>.\<close>

definition RawMemory_destroy :: "raw_state \<Rightarrow> nat \<Rightarrow> raw_state" where
  "RawMemory_destroy st this =
     (if rm_buffer (objs st this) \<noteq> None
      then st\<lparr>freed := Deallocate (rm_buffer (objs st this)) (freed st)\<rparr>
      else st)"

text \<open>\<open>std::swap(a, b)\<close> on two RawMemory objects, as \<open>Vector::Swap\<close> calls it:
  \<open>RawMemory tmp(std::move(a)); a = std::move(b); b = std::move(tmp);\<close> and then the
  destructor of \<open>tmp\<close>.\<close>

definition std_swap_RawMemory :: "raw_state \<Rightarrow> nat \<Rightarrow> nat \<Rightarrow> nat \<Rightarrow> raw_state" where
  "std_swap_RawMemory st a b tmp =
     RawMemory_destroy
       (RawMemory_assign_move (RawMemory_assign_move (RawMemory_move st tmp a) a b) b tmp) tmp"

section \<open>Element slots and the element type\<close>

text \<open>
  A buffer owned by a \<open>Vector<T>\<close> is the list of its slots; its length is the
  capacity of the RawMemory that holds it, and the null buffer is the empty list.
  A slot is raw storage (\<open>Raw\<close>: never constructed, or destroyed), holds a live
  object with a value (\<open>Obj\<close>), or holds a live object that has been moved from
  (\<open>Husk\<close>: constructed, value unspecified). The slot operations record what happens
  to the storage: placement new and assignment store an object, a destructor call
  leaves raw storage.
\<close>

datatype 'a slot = Raw | Obj 'a | Husk

text \<open>
  What the container asks of \<open>T\<close>. The two traits are the ones that
  \<open>ReplaceElementsInMemory\<close> tests with \<open>if constexpr\<close>. \<open>copy_throws x\<close> says that
  copy-constructing from the value \<open>x\<close> throws, \<open>move_throws x\<close> the same for move
  construction (it only counts when \<open>T\<close> is not nothrow-move-constructible),
  \<open>copy_assign_throws x\<close> and \<open>move_assign_throws x\<close> that assigning from the value
  \<open>x\<close> throws, \<open>value_init\<close> is the result of \<open>T()\<close>, \<open>None\<close> when that constructor
  throws, and \<open>sizeof_T\<close> is \<open>sizeof(T)\<close> (at least \<open>1\<close> for every type).
\<close>

record 'a elem_type =
  nothrow_move_constructible :: bool
  copy_constructible :: bool
  copy_throws :: "'a \<Rightarrow> bool"
  move_throws :: "'a \<Rightarrow> bool"
  copy_assign_throws :: "'a \<Rightarrow> bool"
  move_assign_throws :: "'a \<Rightarrow> bool"
  value_init :: "'a option"
  sizeof_T :: nat

definition move_ctor_throws :: "'a elem_type \<Rightarrow> 'a \<Rightarrow> bool" where
  "move_ctor_throws T x = (\<not> nothrow_move_constructible T \<and> move_throws T x)"

fun throws_on :: "('a \<Rightarrow> bool) \<Rightarrow> 'a slot \<Rightarrow> bool" where
  "throws_on f (Obj x) = f x"
| "throws_on f Raw = False"
| "throws_on f Husk = False"

fun vacate :: "'a slot \<Rightarrow> 'a slot" where
  "vacate (Obj x) = Husk"
| "vacate Raw = Raw"
| "vacate Husk = Husk"

text \<open>The constructor that relocation uses for \<open>T\<close>, as the test of
  \<open>ReplaceElementsInMemory\<close> selects it.\<close>

definition relocation_throws :: "'a elem_type \<Rightarrow> 'a \<Rightarrow> bool" where
  "relocation_throws T =
     (if nothrow_move_constructible T \<or> \<not> copy_constructible T
      then move_ctor_throws T else copy_throws T)"

text \<open>Index of the first source slot whose construction throws.\<close>

fun first_throw :: "('a \<Rightarrow> bool) \<Rightarrow> 'a slot list \<Rightarrow> nat option" where
  "first_throw f [] = None"
| "first_throw f (s # ss) =
     (if throws_on f s then Some 0 else map_option Suc (first_throw f ss))"

section \<open>Buffers and the standard algorithms the container calls\<close>

text \<open>
  An operation that throws leaves a state behind: for a member function of the
  container, the container and the buffer it had allocated and now abandons; \<open>Threw\<close>
  carries it. A slot of the abandoned buffer that is not \<open>Raw\<close> holds an object whose
  destructor never ran. \<open>Undefined\<close> stands for a step with no defined behaviour: a
  position past the end, an assignment to a slot that holds no object, a buffer whose
  byte size wrapped.
\<close>

datatype 's failure = Threw 's | Undefined

text \<open>\<open>size_t\<close> has 64 bits. \<open>decr\<close> is \<open>--\<close> on a \<open>size_t\<close>: it wraps at zero.\<close>

definition SIZE_MAX :: nat where
  "SIZE_MAX = 2 ^ 64 - 1"

definition decr :: "nat \<Rightarrow> nat" where
  "decr n = (if n = 0 then SIZE_MAX else n - 1)"

text \<open>The block that \<open>Allocate(n)\<close> returns when \<open>operator new\<close> grants the request.\<close>

definition Allocate :: "nat \<Rightarrow> 'a slot list" where
  "Allocate n = replicate n Raw"

text \<open>
  \<open>RawMemory(size_t capacity)\<close> for a capacity that the caller of the container
  chooses (\<open>Vector(size)\<close>, \<open>Reserve\<close>, \<open>Resize\<close>). \<open>Allocate\<close> asks \<open>operator new\<close> for
  \<open>capacity * sizeof(T)\<close> bytes, a product of two \<open>size_t\<close>. \<open>new_throws\<close> says for
  which byte counts \<open>operator new\<close> throws \<open>std::bad_alloc\<close>. When the product wraps,
  the block is smaller than \<open>capacity_\<close> says and no list of slots describes the
  buffer: \<open>Undefined\<close>. A capacity that is not a \<open>size_t\<close> cannot be passed at all.
  Where the container computes the request itself from \<open>size_\<close> (\<open>EmplaceBack\<close>,
  \<open>Emplace\<close>, copy construction), the elements it already holds bound the request, and
  it is taken to be granted: those operations use \<open>Allocate\<close> directly.
\<close>

definition RawMemory_sized ::
  "(nat \<Rightarrow> bool) \<Rightarrow> 'a elem_type \<Rightarrow> nat \<Rightarrow> 'a slot list failure + 'a slot list" where
  "RawMemory_sized new_throws T capacity =
     (if capacity = 0 then Inr []
      else if SIZE_MAX < capacity * sizeof_T T then Inl Undefined
      else if new_throws (capacity * sizeof_T T) then Inl (Threw [])
      else Inr (Allocate capacity))"

definition slot_at :: "'a slot list \<Rightarrow> nat \<Rightarrow> 'a slot" where
  "slot_at b i = (if i < length b then b ! i else Raw)"

definition slice :: "'a slot list \<Rightarrow> nat \<Rightarrow> nat \<Rightarrow> 'a slot list" where
  "slice b first n = take n (drop first b)"

text \<open>Writing the slots \<open>ss\<close> into \<open>b\<close> from index \<open>d\<close> on, one after the other.\<close>

fun place :: "'a slot list \<Rightarrow> nat \<Rightarrow> 'a slot list \<Rightarrow> 'a slot list" where
  "place b d [] = b"
| "place b d (s # ss) = place (b[d := s]) (Suc d) ss"

definition construct_at :: "'a slot list \<Rightarrow> nat \<Rightarrow> 'a \<Rightarrow> 'a slot list" where
  "construct_at b i x = b[i := Obj x]"

definition destroy_at :: "'a slot list \<Rightarrow> nat \<Rightarrow> 'a slot list" where
  "destroy_at b i = b[i := Raw]"

definition destroy_n :: "'a slot list \<Rightarrow> nat \<Rightarrow> nat \<Rightarrow> 'a slot list" where
  "destroy_n b first n = place b first (replicate n Raw)"

text \<open>\<open>std::uninitialized_copy_n(src + first, n, dst + d)\<close>: \<open>Inr\<close> the destination with
  the \<open>n\<close> copies; when the copy of the \<open>k\<close>-th source throws, the \<open>k\<close> copies made so
  far are destroyed and the exception leaves (\<open>Inl\<close> the destination then).\<close>

definition uninitialized_copy_n ::
  "'a elem_type \<Rightarrow> 'a slot list \<Rightarrow> nat \<Rightarrow> nat \<Rightarrow> 'a slot list \<Rightarrow> nat \<Rightarrow> 'a slot list + 'a slot list" where
  "uninitialized_copy_n T src first n dst d =
     (case first_throw (copy_throws T) (slice src first n) of
        None \<Rightarrow> Inr (place dst d (slice src first n))
      | Some k \<Rightarrow> Inl (place dst d (replicate k Raw)))"

text \<open>\<open>std::uninitialized_move_n\<close>: as above by move construction; the sources that
  were moved are left as husks. Both buffers are returned, source first.\<close>

definition uninitialized_move_n ::
  "'a elem_type \<Rightarrow> 'a slot list \<Rightarrow> nat \<Rightarrow> nat \<Rightarrow> 'a slot list \<Rightarrow> nat \<Rightarrow>
     ('a slot list \<times> 'a slot list) + ('a slot list \<times> 'a slot list)" where
  "uninitialized_move_n T src first n dst d =
     (case first_throw (move_ctor_throws T) (slice src first n) of
        None \<Rightarrow> Inr (place src first (map vacate (slice src first n)),
                      place dst d (slice src first n))
      | Some k \<Rightarrow> Inl (place src first (map vacate (slice src first k)),
                        place dst d (replicate k Raw)))"

text \<open>\<open>std::uninitialized_value_construct_n(b + first, n)\<close>; \<open>None\<close> when \<open>T()\<close> throws
  (on the first element, so nothing was constructed).\<close>

definition uninitialized_value_construct_n ::
  "'a elem_type \<Rightarrow> 'a slot list \<Rightarrow> nat \<Rightarrow> nat \<Rightarrow> 'a slot list option" where
  "uninitialized_value_construct_n T b first n =
     (if n = 0 then Some b
      else case value_init T of
             None \<Rightarrow> None
           | Some x \<Rightarrow> Some (place b first (replicate n (Obj x))))"

text \<open>
  The assignment loops. An assignment needs an object to assign to: when the
  destination slot is \<open>Raw\<close> the step is undefined. When the assignment operator throws,
  the loop stops and the buffer stays as the earlier rounds left it.

  \<open>std::copy(src + first, src + first + n, dst + d)\<close> between two buffers.
\<close>

fun std_copy ::
  "'a elem_type \<Rightarrow> 'a slot list \<Rightarrow> nat \<Rightarrow> nat \<Rightarrow> 'a slot list \<Rightarrow> nat \<Rightarrow>
     'a slot list failure + 'a slot list" where
  "std_copy T src first 0 dst d = Inr dst"
| "std_copy T src first (Suc n) dst d =
     (if slot_at dst d = Raw then Inl Undefined
      else if throws_on (copy_assign_throws T) (slot_at src first) then Inl (Threw dst)
      else std_copy T src (Suc first) n (dst[d := slot_at src first]) (Suc d))"

text \<open>The loop \<open>for (; i != n; ++i) data_[i] = rhs.data_[i];\<close> with \<open>k\<close> rounds to go.\<close>

fun assign_loop ::
  "'a elem_type \<Rightarrow> 'a slot list \<Rightarrow> 'a slot list \<Rightarrow> nat \<Rightarrow> nat \<Rightarrow>
     'a slot list failure + 'a slot list" where
  "assign_loop T dst src i 0 = Inr dst"
| "assign_loop T dst src i (Suc k) =
     (if slot_at dst i = Raw then Inl Undefined
      else if throws_on (copy_assign_throws T) (slot_at src i) then Inl (Threw dst)
      else assign_loop T (dst[i := slot_at src i]) src (Suc i) k)"

text \<open>\<open>std::move(b + first, b + first + n, b + d)\<close> inside one buffer, front to back:
  each round move-assigns one slot and leaves its source moved-from.\<close>

fun std_move ::
  "'a elem_type \<Rightarrow> 'a slot list \<Rightarrow> nat \<Rightarrow> nat \<Rightarrow> nat \<Rightarrow> 'a slot list failure + 'a slot list" where
  "std_move T b first 0 d = Inr b"
| "std_move T b first (Suc n) d =
     (if slot_at b d = Raw then Inl Undefined
      else if throws_on (move_assign_throws T) (slot_at b first) then Inl (Threw b)
      else std_move T ((b[d := slot_at b first])[first := vacate (slot_at b first)])
             (Suc first) n (Suc d))"

text \<open>\<open>std::move_backward(b + first, b + first + n, b + d_last)\<close>, back to front.\<close>

fun std_move_backward ::
  "'a elem_type \<Rightarrow> 'a slot list \<Rightarrow> nat \<Rightarrow> nat \<Rightarrow> nat \<Rightarrow> 'a slot list failure + 'a slot list" where
  "std_move_backward T b first 0 d_last = Inr b"
| "std_move_backward T b first (Suc n) d_last =
     (if slot_at b (d_last - 1) = Raw then Inl Undefined
      else if throws_on (move_assign_throws T) (slot_at b (first + n)) then Inl (Threw b)
      else std_move_backward T
             ((b[d_last - 1 := slot_at b (first + n)])[first + n := vacate (slot_at b (first + n))])
             first n (d_last - 1))"

text \<open>
  What the two move loops store when every round is carried out, whatever the
  destination slot held. They give the contents of the buffer after a run of the
  checked loops that returns.
\<close>

fun std_move_storage :: "'a slot list \<Rightarrow> nat \<Rightarrow> nat \<Rightarrow> nat \<Rightarrow> 'a slot list" where
  "std_move_storage b first 0 d = b"
| "std_move_storage b first (Suc n) d =
     std_move_storage ((b[d := slot_at b first])[first := vacate (slot_at b first)])
       (Suc first) n (Suc d)"

fun std_move_backward_storage :: "'a slot list \<Rightarrow> nat \<Rightarrow> nat \<Rightarrow> nat \<Rightarrow> 'a slot list" where
  "std_move_backward_storage b first 0 d_last = b"
| "std_move_backward_storage b first (Suc n) d_last =
     std_move_backward_storage
       ((b[d_last - 1 := slot_at b (first + n)])[first + n := vacate (slot_at b (first + n))])
       first n (d_last - 1)"

section \<open>Vector\<close>

text \<open>The fields \<open>data_\<close> and \<open>size_\<close> of the class are \<open>v_data\<close> and \<open>v_size\<close>.\<close>

record 'a Vector =
  v_data :: "'a slot list"
  v_size :: nat

definition Size :: "'a Vector \<Rightarrow> nat" where
  "Size v = v_size v"

definition Capacity :: "'a Vector \<Rightarrow> nat" where
  "Capacity v = length (v_data v)"

text \<open>The live elements: the slots \<open>[begin(), end())\<close>.\<close>

definition elements :: "'a Vector \<Rightarrow> 'a slot list" where
  "elements v = take (v_size v) (v_data v)"

definition Vector_default :: "'a Vector" where
  "Vector_default = \<lparr>v_data = [], v_size = 0\<rparr>"


text \<open>\<open>Vector(const Vector& other)\<close>.\<close>

definition Vector_copy :: "'a elem_type \<Rightarrow> 'a Vector \<Rightarrow> 'a slot list failure + 'a Vector" where
  "Vector_copy T other =
     (case uninitialized_copy_n T (v_data other) 0 (v_size other) (Allocate (v_size other)) 0 of
        Inl b \<Rightarrow> Inl (Threw b)
      | Inr b \<Rightarrow> Inr \<lparr>v_data = b, v_size = v_size other\<rparr>)"

text \<open>\<open>ReplaceElementsInMemory(old + first, new + d, n)\<close>; both buffers are returned,
  the old one first.\<close>

definition ReplaceElementsInMemory ::
  "'a elem_type \<Rightarrow> 'a slot list \<Rightarrow> nat \<Rightarrow> 'a slot list \<Rightarrow> nat \<Rightarrow> nat \<Rightarrow>
     ('a slot list \<times> 'a slot list) + ('a slot list \<times> 'a slot list)" where
  "ReplaceElementsInMemory T old_memory first new_memory d n =
     (if nothrow_move_constructible T \<or> \<not> copy_constructible T then
        (case uninitialized_move_n T old_memory first n new_memory d of
           Inl (old1, new1) \<Rightarrow> Inl (old1, new1)
         | Inr (old1, new1) \<Rightarrow> Inr (destroy_n old1 first n, new1))
      else
        (case uninitialized_copy_n T old_memory first n new_memory d of
           Inl new1 \<Rightarrow> Inl (old_memory, new1)
         | Inr new1 \<Rightarrow> Inr (destroy_n old_memory first n, new1)))"

text \<open>\<open>EmplaceBack(args...)\<close>. The argument \<open>ctor\<close> is the outcome of \<open>T{args...}\<close>:
  the value built, or \<open>None\<close> when the constructor throws. The reference returned is
  given as the index of the slot it designates.\<close>

definition EmplaceBack ::
  "'a elem_type \<Rightarrow> 'a Vector \<Rightarrow> 'a option \<Rightarrow>
     ('a Vector \<times> 'a slot list) failure + ('a Vector \<times> nat)" where
  "EmplaceBack T v ctor =
     (if v_size v < Capacity v then
        (case ctor of
           None \<Rightarrow> Inl (Threw (v, []))
         | Some x \<Rightarrow>
             Inr (\<lparr>v_data = construct_at (v_data v) (v_size v) x, v_size = v_size v + 1\<rparr>,
                  v_size v + 1 - 1))
      else
        (let new_data = Allocate (if v_size v = 0 then 1 else v_size v * 2) in
         case ctor of
           None \<Rightarrow> Inl (Threw (v, new_data))
         | Some x \<Rightarrow>
             (case ReplaceElementsInMemory T (v_data v) 0
                     (construct_at new_data (v_size v) x) 0 (v_size v) of
                Inl (old1, new1) \<Rightarrow> Inl (Threw (v\<lparr>v_data := old1\<rparr>, new1))
              | Inr (old1, new1) \<Rightarrow>
                  Inr (\<lparr>v_data = new1, v_size = v_size v + 1\<rparr>, v_size v + 1 - 1))))"

text \<open>\<open>Emplace(pos, args...)\<close> with \<open>p = pos - cbegin()\<close>; the iterator returned is
  given as an index.\<close>

definition Emplace ::
  "'a elem_type \<Rightarrow> 'a Vector \<Rightarrow> nat \<Rightarrow> 'a option \<Rightarrow>
     ('a Vector \<times> 'a slot list) failure + ('a Vector \<times> nat)" where
  "Emplace T v p ctor =
     (if v_size v < p then Inl Undefined
      else if v_size v < Capacity v then
        (if p = v_size v then EmplaceBack T v ctor
         else
           (case ctor of
              None \<Rightarrow> Inl (Threw (v, []))
            | Some tmp \<Rightarrow>
                if throws_on (move_ctor_throws T) (slot_at (v_data v) (v_size v - 1))
                then Inl (Threw (v, []))
                else
                  (let b1 = ((v_data v)[v_size v := slot_at (v_data v) (v_size v - 1)])
                              [v_size v - 1 := vacate (slot_at (v_data v) (v_size v - 1))]
                   in case std_move_backward T b1 p (v_size v - 1 - p) (v_size v) of
                        Inl Undefined \<Rightarrow> Inl Undefined
                      | Inl (Threw b) \<Rightarrow> Inl (Threw (v\<lparr>v_data := b\<rparr>, []))
                      | Inr b2 \<Rightarrow>
                          if slot_at b2 p = Raw then Inl Undefined
                          else if move_assign_throws T tmp
                          then Inl (Threw (v\<lparr>v_data := b2\<rparr>, []))
                          else Inr (\<lparr>v_data = b2[p := Obj tmp], v_size = v_size v + 1\<rparr>, p))))
      else
        (let new_data = Allocate (if v_size v = 0 then 1 else v_size v * 2) in
         case ctor of
           None \<Rightarrow> Inl (Threw (v, new_data))
         | Some x \<Rightarrow>
             (case ReplaceElementsInMemory T (v_data v) 0 (construct_at new_data p x) 0 p of
                Inl (old1, new1) \<Rightarrow> Inl (Threw (v\<lparr>v_data := old1\<rparr>, destroy_at new1 p))
              | Inr (old1, new1) \<Rightarrow>
                  (case ReplaceElementsInMemory T old1 p new1 (p + 1) (v_size v - p) of
                     Inl (old2, new2) \<Rightarrow>
                       Inl (Threw (v\<lparr>v_data := destroy_n old2 0 (p + 1)\<rparr>, new2))
                   | Inr (old2, new2) \<Rightarrow>
                       Inr (\<lparr>v_data = new2, v_size = v_size v + 1\<rparr>, p)))))"

text \<open>The outcome of copy-constructing and of move-constructing a \<open>T\<close> from \<open>x\<close>.\<close>

definition copy_of :: "'a elem_type \<Rightarrow> 'a \<Rightarrow> 'a option" where
  "copy_of T x = (if copy_throws T x then None else Some x)"

definition move_of :: "'a elem_type \<Rightarrow> 'a \<Rightarrow> 'a option" where
  "move_of T x = (if move_ctor_throws T x then None else Some x)"



definition Insert_copy ::
  "'a elem_type \<Rightarrow> 'a Vector \<Rightarrow> nat \<Rightarrow> 'a \<Rightarrow>
     ('a Vector \<times> 'a slot list) failure + ('a Vector \<times> nat)" where
  "Insert_copy T v p x = Emplace T v p (copy_of T x)"

definition Insert_move ::
  "'a elem_type \<Rightarrow> 'a Vector \<Rightarrow> nat \<Rightarrow> 'a \<Rightarrow>
     ('a Vector \<times> 'a slot list) failure + ('a Vector \<times> nat)" where
  "Insert_move T v p x = Emplace T v p (move_of T x)"

text \<open>\<open>PopBack()\<close>: \<open>std::destroy_at(end() - 1); size_--;\<close>, with no test of
  \<open>size_\<close>. On an empty vector \<open>end() - 1\<close> points before the buffer, so no slot of the
  buffer changes, and \<open>size_\<close> wraps to \<open>SIZE_MAX\<close>.\<close>

definition PopBack :: "'a Vector \<Rightarrow> 'a Vector" where
  "PopBack v =
     \<lparr>v_data = (if v_size v = 0 then v_data v else destroy_at (v_data v) (v_size v - 1)),
      v_size = decr (v_size v)\<rparr>"

text \<open>\<open>Erase(pos)\<close> as \<open>advanced-vector/vector.h\<close> has it: \<open>std::destroy_at(pos)\<close>, then
  \<open>std::move(pos + 1, end(), pos)\<close>, then \<open>size_--\<close>. The first round of the move
  assigns to the slot \<open>pos\<close>, which holds no object any more. When the move assignment
  throws, the exception leaves the function (it is \<open>noexcept\<close> only for a \<open>T\<close> whose
  move assignment cannot throw).\<close>

definition Erase ::
  "'a elem_type \<Rightarrow> 'a Vector \<Rightarrow> nat \<Rightarrow>
     ('a Vector \<times> 'a slot list) failure + ('a Vector \<times> nat)" where
  "Erase T v p =
     (if v_size v < p then Inl Undefined
      else if p = v_size v then Inr (PopBack v, v_size (PopBack v))
      else
        (case std_move T (destroy_at (v_data v) p) (p + 1) (v_size v - (p + 1)) p of
           Inl Undefined \<Rightarrow> Inl Undefined
         | Inl (Threw b) \<Rightarrow> Inl (Threw (v\<lparr>v_data := b\<rparr>, []))
         | Inr b \<Rightarrow> Inr (\<lparr>v_data = b, v_size = decr (v_size v)\<rparr>, p)))"

text \<open>What the same three statements leave in the storage when the assignment into
  the slot just destroyed is carried out like an assignment to an object (as it is for
  a trivially destructible \<open>T\<close>).\<close>

definition Erase_storage :: "'a Vector \<Rightarrow> nat \<Rightarrow> 'a Vector \<times> nat" where
  "Erase_storage v p =
     (\<lparr>v_data = std_move_storage (destroy_at (v_data v) p) (p + 1) (v_size v - (p + 1)) p,
       v_size = decr (v_size v)\<rparr>, p)"

text \<open>\<open>Erase(pos)\<close> as the out-of-line definition (\<open>unnamed/part_000\<close>, and the same
  text in \<open>part_001\<close>) has it: \<open>std::move(pos + 1, end(), pos)\<close>, then \<open>PopBack()\<close>.\<close>

definition Erase_p000 ::
  "'a elem_type \<Rightarrow> 'a Vector \<Rightarrow> nat \<Rightarrow>
     ('a Vector \<times> 'a slot list) failure + ('a Vector \<times> nat)" where
  "Erase_p000 T v p =
     (if v_size v < p then Inl Undefined
      else if p = v_size v then Inr (PopBack v, v_size (PopBack v))
      else
        (case std_move T (v_data v) (p + 1) (v_size v - (p + 1)) p of
           Inl Undefined \<Rightarrow> Inl Undefined
         | Inl (Threw b) \<Rightarrow> Inl (Threw (v\<lparr>v_data := b\<rparr>, []))
         | Inr b \<Rightarrow> Inr (PopBack (v\<lparr>v_data := b\<rparr>), p)))"

text \<open>\<open>Reserve(new_capacity)\<close>.\<close>

definition Reserve ::
  "(nat \<Rightarrow> bool) \<Rightarrow> 'a elem_type \<Rightarrow> 'a Vector \<Rightarrow> nat \<Rightarrow>
     ('a Vector \<times> 'a slot list) failure + 'a Vector" where
  "Reserve new_throws T v new_capacity =
     (if new_capacity \<le> Capacity v then Inr v
      else
        (case RawMemory_sized new_throws T new_capacity of
           Inl Undefined \<Rightarrow> Inl Undefined
         | Inl (Threw b) \<Rightarrow> Inl (Threw (v, b))
         | Inr new_data \<Rightarrow>
             (case ReplaceElementsInMemory T (v_data v) 0 new_data 0 (v_size v) of
                Inl (old1, new1) \<Rightarrow> Inl (Threw (v\<lparr>v_data := old1\<rparr>, new1))
              | Inr (old1, new1) \<Rightarrow> Inr (v\<lparr>v_data := new1\<rparr>))))"

text \<open>\<open>Resize(new_size)\<close>.\<close>

definition Resize ::
  "(nat \<Rightarrow> bool) \<Rightarrow> 'a elem_type \<Rightarrow> 'a Vector \<Rightarrow> nat \<Rightarrow>
     ('a Vector \<times> 'a slot list) failure + 'a Vector" where
  "Resize new_throws T v new_size =
     (if v_size v < new_size then
        (case Reserve new_throws T v new_size of
           Inl e \<Rightarrow> Inl e
         | Inr v1 \<Rightarrow>
             (case uninitialized_value_construct_n T (v_data v1) (v_size v1)
                     (new_size - v_size v1) of
                None \<Rightarrow> Inl (Threw (v1, []))
              | Some b \<Rightarrow> Inr \<lparr>v_data = b, v_size = new_size\<rparr>))
      else if new_size < v_size v then
        Inr \<lparr>v_data = destroy_n (v_data v) new_size (v_size v - new_size), v_size = new_size\<rparr>
      else Inr (v\<lparr>v_size := new_size\<rparr>))"

section \<open>Operations on two vectors\<close>

text \<open>
  Copy and move assignment test \<open>this != &rhs\<close>, so the vectors live in a store
  indexed by object identity.
\<close>

type_synonym 'a store = "nat \<Rightarrow> 'a Vector"

text \<open>\<open>Swap(other)\<close>: \<open>std::swap(size_, other.size_); std::swap(data_, other.data_);\<close>.\<close>

definition Swap :: "'a store \<Rightarrow> nat \<Rightarrow> nat \<Rightarrow> 'a store" where
  "Swap s this other =
     s(this := (s this)\<lparr>v_size := v_size (s other), v_data := v_data (s other)\<rparr>,
       other := (s other)\<lparr>v_size := v_size (s this), v_data := v_data (s this)\<rparr>)"

text \<open>\<open>Vector(Vector&& other)\<close>: the new object \<open>this\<close> is empty, then \<open>Swap(other)\<close>.\<close>

definition Vector_move :: "'a store \<Rightarrow> nat \<Rightarrow> nat \<Rightarrow> 'a store" where
  "Vector_move s this other = Swap (s(this := Vector_default)) this other"

text \<open>\<open>operator=(Vector&& rhs)\<close>.\<close>

definition assign_move :: "'a store \<Rightarrow> nat \<Rightarrow> nat \<Rightarrow> 'a store" where
  "assign_move s this rhs = (if this \<noteq> rhs then Swap s this rhs else s)"

text \<open>\<open>operator=(const Vector& rhs)\<close> as \<open>advanced-vector/vector.h\<close> has it. In the
  first branch \<open>rhs_copy\<close> takes the old contents of \<open>this\<close> in the swap and destroys
  them when it goes out of scope.\<close>

definition assign_copy ::
  "'a elem_type \<Rightarrow> 'a store \<Rightarrow> nat \<Rightarrow> nat \<Rightarrow> ('a store \<times> 'a slot list) failure + 'a store" where
  "assign_copy T s this rhs =
     (if this \<noteq> rhs then
        (if Capacity (s this) < v_size (s rhs) then
           (case Vector_copy T (s rhs) of
              Inl (Threw b) \<Rightarrow> Inl (Threw (s, b))
            | Inl Undefined \<Rightarrow> Inl Undefined
            | Inr rhs_copy \<Rightarrow> Inr (s(this := rhs_copy)))
         else if v_size (s rhs) < v_size (s this) then
           (case assign_loop T (v_data (s this)) (v_data (s rhs)) 0 (v_size (s rhs)) of
              Inl Undefined \<Rightarrow> Inl Undefined
            | Inl (Threw b) \<Rightarrow> Inl (Threw (s(this := (s this)\<lparr>v_data := b\<rparr>), []))
            | Inr b1 \<Rightarrow>
                (let b2 = destroy_n b1 (v_size (s rhs)) (v_size (s this) - v_size (s rhs))
                 in Inr (s(this := \<lparr>v_data = b2, v_size = v_size (s rhs)\<rparr>))))
         else
           (case assign_loop T (v_data (s this)) (v_data (s rhs)) 0 (v_size (s this)) of
              Inl Undefined \<Rightarrow> Inl Undefined
            | Inl (Threw b) \<Rightarrow> Inl (Threw (s(this := (s this)\<lparr>v_data := b\<rparr>), []))
            | Inr b1 \<Rightarrow>
                (case uninitialized_copy_n T (v_data (s rhs)) 0
                        (v_size (s rhs) - v_size (s this)) b1 0 of
                   Inl b2 \<Rightarrow> Inl (Threw (s(this := (s this)\<lparr>v_data := b2\<rparr>), []))
                 | Inr b2 \<Rightarrow> Inr (s(this := \<lparr>v_data = b2, v_size = v_size (s rhs)\<rparr>)))))
      else Inr s)"

text \<open>\<open>operator=(const Vector& rhs)\<close> as the out-of-line definition
  (\<open>unnamed/part_000\<close>, and the same text in \<open>part_001\<close>) has it.\<close>

definition assign_copy_p000 ::
  "'a elem_type \<Rightarrow> 'a store \<Rightarrow> nat \<Rightarrow> nat \<Rightarrow> ('a store \<times> 'a slot list) failure + 'a store" where
  "assign_copy_p000 T s this rhs =
     (if this \<noteq> rhs then
        (if Capacity (s this) < v_size (s rhs) then
           (case Vector_copy T (s rhs) of
              Inl (Threw b) \<Rightarrow> Inl (Threw (s, b))
            | Inl Undefined \<Rightarrow> Inl Undefined
            | Inr rhs_copy \<Rightarrow> Inr (s(this := rhs_copy)))
         else if v_size (s rhs) < v_size (s this) then
           (case std_copy T (v_data (s rhs)) 0 (v_size (s rhs)) (v_data (s this)) 0 of
              Inl Undefined \<Rightarrow> Inl Undefined
            | Inl (Threw b) \<Rightarrow> Inl (Threw (s(this := (s this)\<lparr>v_data := b\<rparr>), []))
            | Inr b1 \<Rightarrow>
                (let b2 = destroy_n b1 (v_size (s rhs)) (v_size (s this) - v_size (s rhs))
                 in Inr (s(this := \<lparr>v_data = b2, v_size = v_size (s rhs)\<rparr>))))
         else
           (case std_copy T (v_data (s rhs)) 0 (v_size (s this)) (v_data (s this)) 0 of
              Inl Undefined \<Rightarrow> Inl Undefined
            | Inl (Threw b) \<Rightarrow> Inl (Threw (s(this := (s this)\<lparr>v_data := b\<rparr>), []))
            | Inr b1 \<Rightarrow>
                (case uninitialized_copy_n T (v_data (s rhs)) (v_size (s this))
                        (v_size (s rhs) - v_size (s this)) b1 (v_size (s this)) of
                   Inl b2 \<Rightarrow> Inl (Threw (s(this := (s this)\<lparr>v_data := b2\<rparr>), []))
                 | Inr b2 \<Rightarrow> Inr (s(this := \<lparr>v_data = b2, v_size = v_size (s rhs)\<rparr>)))))
      else Inr s)"

section \<open>Invariant, outcomes and sample inputs\<close>

text \<open>The invariant of the data model: \<open>size_ <= data_.Capacity()\<close>.\<close>

definition size_le_capacity :: "'a Vector \<Rightarrow> bool" where
  "size_le_capacity v = (v_size v \<le> Capacity v)"




text \<open>An element type over the naturals whose copy constructor throws on the value
  \<open>2\<close>; its move constructor may throw, so it is relocated by copy. Its assignment
  operators do not throw, and an object takes \<open>8\<close> bytes.\<close>

definition T_copy_throws_2 :: "nat elem_type" where
  "T_copy_throws_2 =
     \<lparr>nothrow_move_constructible = False, copy_constructible = True,
      copy_throws = (\<lambda>x. x = 2), move_throws = (\<lambda>x. False),
      copy_assign_throws = (\<lambda>x. False), move_assign_throws = (\<lambda>x. False),
      value_init = Some 0, sizeof_T = 8\<rparr>"

text \<open>An element type over the naturals that cannot be copied and whose move
  constructor throws on the value \<open>2\<close>; it is relocated by move. Its assignment
  operators do not throw, and an object takes \<open>8\<close> bytes.\<close>

definition T_move_only_throws_2 :: "nat elem_type" where
  "T_move_only_throws_2 =
     \<lparr>nothrow_move_constructible = False, copy_constructible = False,
      copy_throws = (\<lambda>x. False), move_throws = (\<lambda>x. x = 2),
      copy_assign_throws = (\<lambda>x. False), move_assign_throws = (\<lambda>x. False),
      value_init = Some 0, sizeof_T = 8\<rparr>"

text \<open>Two vectors, object \<open>0\<close> holding \<open>[1]\<close> and object \<open>1\<close> holding \<open>[2, 3]\<close>, both
  full; every other object of the store is empty.\<close>

definition two_vectors :: "nat store" where
  "two_vectors =
     (\<lambda>_. Vector_default)
       (0 := \<lparr>v_data = [Obj 1], v_size = 1\<rparr>,
        1 := \<lparr>v_data = [Obj 2, Obj 3], v_size = 2\<rparr>)"

text \<open>A destination \<open>[1, 2]\<close> with capacity \<open>4\<close> (object \<open>0\<close>) and a source
  \<open>[5, 6, 7]\<close> (object \<open>1\<close>).\<close>

definition short_and_long :: "nat store" where
  "short_and_long =
     (\<lambda>_. Vector_default)
       (0 := \<lparr>v_data = [Obj 1, Obj 2, Raw, Raw], v_size = 2\<rparr>,
        1 := \<lparr>v_data = [Obj 5, Obj 6, Obj 7], v_size = 3\<rparr>)"

text \<open>A destination \<open>[1]\<close> with capacity \<open>3\<close> (object \<open>0\<close>) and a source
  \<open>[5, 6, 7]\<close> (object \<open>1\<close>).\<close>

definition one_and_three :: "nat store" where
  "one_and_three =
     (\<lambda>_. Vector_default)
       (0 := \<lparr>v_data = [Obj 1, Raw, Raw], v_size = 1\<rparr>,
        1 := \<lparr>v_data = [Obj 5, Obj 6, Obj 7], v_size = 3\<rparr>)"

text \<open>Two RawMemory objects, \<open>0\<close> and \<open>1\<close>, that own the blocks at the addresses
  \<open>100\<close> (two elements) and \<open>200\<close> (three elements); nothing freed yet.\<close>

definition two_buffers :: raw_state where
  "two_buffers =
     \<lparr>objs = (\<lambda>_. RawMemory_default)
               (0 := \<lparr>rm_buffer = Some 100, rm_capacity = 2\<rparr>,
                1 := \<lparr>rm_buffer = Some 200, rm_capacity = 3\<rparr>),
      freed = []\<rparr>"

section \<open>Facts about RawMemory\<close>

lemma RawMemory_move_source_null:
  "this \<noteq> other \<Longrightarrow>
   objs (RawMemory_move st this other) other = RawMemory_default \<and>
   objs (RawMemory_move st this other) this = objs st other \<and>
   freed (RawMemory_move st this other) = freed st"
  by (simp add: RawMemory_move_def RawMemory_Swap_def RawMemory_default_def Let_def
      Deallocate_def)

text \<open>After a move assignment between distinct objects the source keeps the
  destination's former pointer, which has just been freed.\<close>

lemma RawMemory_assign_move_source:
  "this \<noteq> rhs \<Longrightarrow>
   rm_buffer (objs (RawMemory_assign_move st this rhs) rhs) = rm_buffer (objs st this) \<and>
   rm_capacity (objs (RawMemory_assign_move st this rhs) rhs) = 0 \<and>
   objs (RawMemory_assign_move st this rhs) this = objs st rhs \<and>
   freed (RawMemory_assign_move st this rhs) = Deallocate (rm_buffer (objs st this)) (freed st)"
  by (simp add: RawMemory_assign_move_def RawMemory_Swap_def Let_def)

text \<open>\<open>std::swap\<close> of two RawMemory objects only ever move-assigns into an object
  whose pointer is null, so it exchanges the two and frees nothing.\<close>

lemma std_swap_RawMemory_exchanges:
  assumes "a \<noteq> b" and "tmp \<noteq> a" and "tmp \<noteq> b"
  shows "objs (std_swap_RawMemory st a b tmp) a = objs st b \<and>
         objs (std_swap_RawMemory st a b tmp) b = objs st a \<and>
         freed (std_swap_RawMemory st a b tmp) = freed st"
  using assms
  by (simp add: std_swap_RawMemory_def RawMemory_destroy_def RawMemory_assign_move_def
      RawMemory_move_def RawMemory_Swap_def RawMemory_default_def Deallocate_def Let_def)

text \<open>
  Claim C2. After a move construction or a move assignment of a RawMemory the source
  has a null pointer and capacity 0, so that its destructor frees nothing. The move
  constructor does that (\<open>RawMemory_move_source_null\<close>). The move assignment does
  not: assigning object \<open>1\<close> to object \<open>0\<close> of \<open>two_buffers\<close> frees the block at
  \<open>100\<close> and leaves that address in the source, whose destructor frees it again.
\<close>

theorem RawMemory_assign_move_dangling:
  "rm_buffer (objs (RawMemory_assign_move two_buffers 0 1) 1) = Some 100 \<and>
   rm_capacity (objs (RawMemory_assign_move two_buffers 0 1) 1) = 0 \<and>
   freed (RawMemory_assign_move two_buffers 0 1) = [100] \<and>
   freed (RawMemory_destroy (RawMemory_assign_move two_buffers 0 1) 1) = [100, 100]"
  by (simp add: RawMemory_assign_move_def RawMemory_destroy_def RawMemory_Swap_def
      two_buffers_def Deallocate_def Let_def)

section \<open>Facts about buffers\<close>

lemma length_place [simp]: "length (place b d ss) = length b"
  by (induction ss arbitrary: b d) simp_all

lemma nth_place:
  "i < length b \<Longrightarrow>
   place b d ss ! i = (if d \<le> i \<and> i < d + length ss then ss ! (i - d) else b ! i)"
proof (induction ss arbitrary: b d)
  case Nil
  then show ?case by auto
next
  case (Cons s ss)
  have step: "place (b[d := s]) (Suc d) ss ! i =
      (if Suc d \<le> i \<and> i < Suc d + length ss then ss ! (i - Suc d) else b[d := s] ! i)"
    using Cons.IH [of "b[d := s]" "Suc d"] Cons.prems by simp
  show ?case
  proof (cases "i = d")
    case True
    with step Cons.prems show ?thesis by simp
  next
    case False
    with step Cons.prems show ?thesis
      by (cases "d < i") (auto simp: nth_Cons' Suc_diff_Suc)
  qed
qed

lemma place_append:
  "d + length ss \<le> length b \<Longrightarrow> place b d ss = take d b @ ss @ drop (d + length ss) b"
  by (rule nth_equalityI) (auto simp: nth_place nth_append)

lemma length_std_move_storage [simp]: "length (std_move_storage b first n d) = length b"
  by (induction n arbitrary: b first d) simp_all

lemma nth_std_move_storage:
  "Suc d + n \<le> length b \<Longrightarrow> i < length b \<Longrightarrow>
   std_move_storage b (Suc d) n d ! i =
     (if d \<le> i \<and> i < d + n then b ! Suc i
      else if i = d + n \<and> 0 < n then vacate (b ! i) else b ! i)"
proof (induction n arbitrary: b d)
  case 0
  then show ?case by auto
next
  case (Suc n)
  then show ?case
    by (auto simp: nth_list_update slot_at_def)
qed

lemma length_std_move_backward_storage [simp]: "length (std_move_backward_storage b first n d) = length b"
  by (induction n arbitrary: b d) simp_all

lemma nth_std_move_backward_storage:
  "first + n < length b \<Longrightarrow> i < length b \<Longrightarrow>
   std_move_backward_storage b first n (first + n + 1) ! i =
     (if first < i \<and> i \<le> first + n then b ! (i - 1)
      else if i = first \<and> 0 < n then vacate (b ! i) else b ! i)"
proof (induction n arbitrary: b)
  case 0
  then show ?case by auto
next
  case (Suc n)
  then show ?case
    by (auto simp: nth_list_update slot_at_def)
qed

lemma length_slice [simp]: "length (slice b first n) = min n (length b - first)"
  by (simp add: slice_def)

lemma nth_slice: "i < n \<Longrightarrow> first + i < length b \<Longrightarrow> slice b first n ! i = b ! (first + i)"
  by (simp add: slice_def)

lemma slice_0 [simp]: "slice b 0 n = take n b"
  by (simp add: slice_def)

lemma length_destroy_n [simp]: "length (destroy_n b first n) = length b"
  by (simp add: destroy_n_def)

lemma length_destroy_at [simp]: "length (destroy_at b i) = length b"
  by (simp add: destroy_at_def)

lemma length_construct_at [simp]: "length (construct_at b i x) = length b"
  by (simp add: construct_at_def)

lemma length_Allocate [simp]: "length (Allocate n) = n"
  by (simp add: Allocate_def)

lemma nth_destroy_n:
  "i < length b \<Longrightarrow>
   destroy_n b first n ! i = (if first \<le> i \<and> i < first + n then Raw else b ! i)"
  by (auto simp: destroy_n_def nth_place)

lemma destroy_n_place:
  "length ss \<le> n \<Longrightarrow> destroy_n (place b first ss) first n = destroy_n b first n"
  by (rule nth_equalityI) (auto simp: nth_destroy_n nth_place)

lemma first_throw_None: "first_throw f ss = None \<longleftrightarrow> (\<forall>s \<in> set ss. \<not> throws_on f s)"
  by (induction ss) auto

lemma first_throw_Some_less: "first_throw f ss = Some k \<Longrightarrow> k < length ss"
  by (induction ss arbitrary: k) (auto split: if_splits)

lemma ReplaceElementsInMemory_ok:
  assumes "first_throw (relocation_throws T) (slice old first n) = None"
  shows "ReplaceElementsInMemory T old first new d n =
           Inr (destroy_n old first n, place new d (slice old first n))"
proof (cases "nothrow_move_constructible T \<or> \<not> copy_constructible T")
  case True
  with assms have "first_throw (move_ctor_throws T) (slice old first n) = None"
    by (simp add: relocation_throws_def)
  with True show ?thesis
    by (simp add: ReplaceElementsInMemory_def uninitialized_move_n_def destroy_n_place)
next
  case False
  with assms have "first_throw (copy_throws T) (slice old first n) = None"
    by (simp add: relocation_throws_def)
  with False show ?thesis
    by (simp add: ReplaceElementsInMemory_def uninitialized_copy_n_def)
qed

lemma elements_EmplaceBack_in_place:
  assumes "v_size v < Capacity v"
  shows "take (Suc (v_size v)) (construct_at (v_data v) (v_size v) x) = elements v @ [Obj x]"
  using assms
  by (simp add: construct_at_def Capacity_def elements_def take_Suc_conv_app_nth)


lemma elements_relocated:
  assumes "n \<le> length old" and "n < c"
  shows "take (Suc n) (place (construct_at (Allocate c) n x) 0 (take n old)) = take n old @ [Obj x]"
proof (rule nth_equalityI)
  show "length (take (Suc n) (place (construct_at (Allocate c) n x) 0 (take n old))) =
        length (take n old @ [Obj x])"
    using assms by simp
next
  fix i
  assume "i < length (take (Suc n) (place (construct_at (Allocate c) n x) 0 (take n old)))"
  with assms have i: "i < Suc n" by simp
  with assms show "take (Suc n) (place (construct_at (Allocate c) n x) 0 (take n old)) ! i =
                   (take n old @ [Obj x]) ! i"
    by (cases "i = n") (auto simp: nth_place nth_append construct_at_def Allocate_def)
qed

lemma EmplaceBack_ok:
  assumes inv: "v_size v \<le> Capacity v"
    and reloc: "v_size v = Capacity v \<Longrightarrow>
                first_throw (relocation_throws T) (elements v) = None"
  shows "\<exists>v'. EmplaceBack T v (Some x) = Inr (v', v_size v) \<and>
               elements v' = elements v @ [Obj x] \<and>
               v_size v' = Suc (v_size v) \<and>
               Capacity v' = (if v_size v < Capacity v then Capacity v
                              else max 1 (2 * Capacity v))"
proof (cases "v_size v < Capacity v")
  case True
  then show ?thesis
    using elements_EmplaceBack_in_place [OF True, of x]
    by (simp add: EmplaceBack_def elements_def Capacity_def)
next
  case False
  with inv have eq: "v_size v = Capacity v" by simp
  have rel: "first_throw (relocation_throws T) (slice (v_data v) 0 (v_size v)) = None"
    using reloc [OF eq] by (simp add: elements_def)
  have lt: "v_size v < (if v_size v = 0 then 1 else v_size v * 2)"
    by simp
  have len: "v_size v \<le> length (v_data v)"
    using inv by (simp add: Capacity_def)
  show ?thesis
    using False eq elements_relocated [OF len lt, of x]
      ReplaceElementsInMemory_ok [OF rel]
    by (auto simp: EmplaceBack_def elements_def Capacity_def Let_def max_def Suc_le_eq)
qed


lemma length_ReplaceElementsInMemory:
  "ReplaceElementsInMemory T old first new d n = Inr (old1, new1) \<Longrightarrow>
     length old1 = length old \<and> length new1 = length new"
  "ReplaceElementsInMemory T old first new d n = Inl (old1, new1) \<Longrightarrow>
     length old1 = length old \<and> length new1 = length new"
  by (auto simp: ReplaceElementsInMemory_def uninitialized_move_n_def uninitialized_copy_n_def
      split: if_splits option.splits)


section \<open>EmplaceBack\<close>

lemma EmplaceBack_ctor_failure:
  "v_size v = Capacity v \<Longrightarrow>
   EmplaceBack T v None = Inl (Threw (v, Allocate (max 1 (2 * Capacity v))))"
  by (simp add: EmplaceBack_def Let_def max_def mult.commute)

lemma ReplaceElementsInMemory_failure:
  assumes "ReplaceElementsInMemory T old first new d n = Inl (old1, new1)"
  shows "\<exists>k<n. new1 = place new d (replicate k Raw)"
proof -
  have bound: "first_throw f (slice old first n) = Some k \<Longrightarrow> k < n" for f k
    using first_throw_Some_less [of f "slice old first n" k] by simp
  from assms show ?thesis
    by (auto simp: ReplaceElementsInMemory_def uninitialized_move_n_def
        uninitialized_copy_n_def split: if_splits option.splits)
       (use bound in blast)+
qed

lemma EmplaceBack_relocation_failure:
  assumes eq: "v_size v = Capacity v"
    and thrown: "EmplaceBack T v (Some x) = Inl (Threw (v1, new1))"
  shows "length new1 = max 1 (2 * Capacity v) \<and> slot_at new1 (v_size v) = Obj x"
proof -
  let ?c = "if v_size v = 0 then 1 else v_size v * 2"
  from eq thrown obtain old1 where
    "ReplaceElementsInMemory T (v_data v) 0 (construct_at (Allocate ?c) (v_size v) x) 0 (v_size v)
       = Inl (old1, new1)"
    by (auto simp: EmplaceBack_def Let_def split: sum.splits)
  then obtain k where k: "k < v_size v"
    and new1: "new1 = place (construct_at (Allocate ?c) (v_size v) x) 0 (replicate k Raw)"
    using ReplaceElementsInMemory_failure by blast
  have "v_size v < ?c" by simp
  with k new1 eq show ?thesis
    by (auto simp: slot_at_def nth_place construct_at_def Allocate_def max_def)
qed

text \<open>
  Claim C7. \<open>EmplaceBack\<close> on a vector with \<open>size_ <= capacity\<close>. When there is
  room, or when relocating the old elements does not throw, it returns a reference to
  slot \<open>size_ - 1\<close> of the new state, which holds the new element; the elements are
  the old ones followed by the new one; the size grew by one; the capacity is
  \<open>max 1 (2 * capacity)\<close> when \<open>size_ = capacity\<close> and unchanged otherwise. When
  \<open>size_ = capacity\<close> the new element is built in the new buffer before any old
  element is touched: a constructor that throws leaves the vector as it was and the new
  buffer raw, and whenever the relocation throws, the buffer it abandons has the new
  capacity and already holds the new element in slot \<open>size_\<close>.
\<close>

theorem EmplaceBack_appends:
  assumes "size_le_capacity v"
  shows "(v_size v < Capacity v \<or> first_throw (relocation_throws T) (elements v) = None \<longrightarrow>
           (\<exists>v'. EmplaceBack T v (Some x) = Inr (v', v_size v) \<and>
                 elements v' = elements v @ [Obj x] \<and>
                 v_size v' = v_size v + 1 \<and>
                 slot_at (v_data v') (v_size v' - 1) = Obj x \<and>
                 v_size v' - 1 = v_size v \<and>
                 Capacity v' = (if v_size v = Capacity v then max 1 (2 * Capacity v)
                                else Capacity v))) \<and>
         (v_size v = Capacity v \<longrightarrow>
            EmplaceBack T v None = Inl (Threw (v, Allocate (max 1 (2 * Capacity v)))) \<and>
            (\<forall>v1 new1. EmplaceBack T v (Some x) = Inl (Threw (v1, new1)) \<longrightarrow>
               length new1 = max 1 (2 * Capacity v) \<and> slot_at new1 (v_size v) = Obj x))"
proof (intro conjI impI allI)
  assume ok: "v_size v < Capacity v \<or> first_throw (relocation_throws T) (elements v) = None"
  from assms have inv: "v_size v \<le> Capacity v"
    by (simp add: size_le_capacity_def)
  from ok have "v_size v = Capacity v \<Longrightarrow> first_throw (relocation_throws T) (elements v) = None"
    by auto
  from EmplaceBack_ok [OF inv this, of x] obtain v' where
    r: "EmplaceBack T v (Some x) = Inr (v', v_size v)"
    and e: "elements v' = elements v @ [Obj x]"
    and s: "v_size v' = Suc (v_size v)"
    and c: "Capacity v' = (if v_size v < Capacity v then Capacity v else max 1 (2 * Capacity v))"
    by blast
  from e have "take (v_size v') (v_data v') ! v_size v = (elements v @ [Obj x]) ! v_size v"
    by (simp add: elements_def)
  moreover have "length (elements v) = v_size v"
    using inv by (simp add: elements_def Capacity_def)
  moreover from e s have "v_size v < length (v_data v')"
    by (metis elements_def length_take less_Suc_eq_le min.cobounded1 length_append_singleton calculation(2) not_less)
  ultimately have "slot_at (v_data v') (v_size v) = Obj x"
    using s by (simp add: slot_at_def nth_append)
  with r e s c inv show "\<exists>v'. EmplaceBack T v (Some x) = Inr (v', v_size v) \<and>
                 elements v' = elements v @ [Obj x] \<and>
                 v_size v' = v_size v + 1 \<and>
                 slot_at (v_data v') (v_size v' - 1) = Obj x \<and>
                 v_size v' - 1 = v_size v \<and>
                 Capacity v' = (if v_size v = Capacity v then max 1 (2 * Capacity v)
                                else Capacity v)"
    by auto
next
  assume "v_size v = Capacity v"
  then show "EmplaceBack T v None = Inl (Threw (v, Allocate (max 1 (2 * Capacity v))))"
    by (rule EmplaceBack_ctor_failure)
next
  fix v1 new1
  assume a: "v_size v = Capacity v" and b: "EmplaceBack T v (Some x) = Inl (Threw (v1, new1))"
  show "length new1 = max 1 (2 * Capacity v)"
    using EmplaceBack_relocation_failure [OF a b] by simp
next
  fix v1 new1
  assume a: "v_size v = Capacity v" and b: "EmplaceBack T v (Some x) = Inl (Threw (v1, new1))"
  show "slot_at new1 (v_size v) = Obj x"
    using EmplaceBack_relocation_failure [OF a b] by simp
qed


theorem EmplaceBack_appends_witness:
  "EmplaceBack T_copy_throws_2 \<lparr>v_data = [Obj 1, Obj 3], v_size = 2\<rparr> None =
     Inl (Threw (\<lparr>v_data = [Obj 1, Obj 3], v_size = 2\<rparr>, [Raw, Raw, Raw, Raw])) \<and>
   (\<exists>v'. EmplaceBack T_copy_throws_2 \<lparr>v_data = [Obj 1, Obj 3], v_size = 2\<rparr> (Some 9) = Inr (v', 2) \<and>
         elements v' = [Obj 1, Obj 3, Obj 9] \<and> v_size v' = 3 \<and> Capacity v' = 4)"
proof -
  let ?v = "\<lparr>v_data = [Obj 1, Obj (3::nat)], v_size = 2\<rparr>"
  have inv: "size_le_capacity ?v"
    by (simp add: size_le_capacity_def Capacity_def)
  have cap: "Capacity ?v = 2"
    by (simp add: Capacity_def)
  have el: "elements ?v = [Obj 1, Obj 3]"
    by (simp add: elements_def)
  have quiet: "first_throw (relocation_throws T_copy_throws_2) (elements ?v) = None"
    by (simp add: elements_def relocation_throws_def T_copy_throws_2_def)
  have al: "Allocate 4 = [Raw, Raw, Raw, Raw :: nat slot]"
    by (simp add: Allocate_def eval_nat_numeral)
  from EmplaceBack_appends [OF inv, of T_copy_throws_2 9] quiet
  show ?thesis
    unfolding cap el by (auto simp: al)
qed

section \<open>The assignment loops\<close>

lemma assign_loop_std_copy: "assign_loop T dst src i k = std_copy T src i k dst i"
  by (induction k arbitrary: dst i) simp_all

lemma std_copy_ok:
  assumes "first + n \<le> length src" and "d + n \<le> length dst"
    and "\<forall>i. d \<le> i \<and> i < d + n \<longrightarrow> dst ! i \<noteq> Raw"
    and "first_throw (copy_assign_throws T) (slice src first n) = None"
  shows "std_copy T src first n dst d = Inr (place dst d (slice src first n))"
  using assms
proof (induction n arbitrary: first dst d)
  case 0
  then show ?case by (simp add: slice_def)
next
  case (Suc n)
  from Suc.prems have src: "slice src first (Suc n) = src ! first # slice src (Suc first) n"
    by (simp add: slice_def Cons_nth_drop_Suc [symmetric])
  from Suc.prems have here: "slot_at dst d = dst ! d" "dst ! d \<noteq> Raw" "slot_at src first = src ! first"
    by (simp_all add: slot_at_def)
  from Suc.prems src have quiet: "\<not> throws_on (copy_assign_throws T) (src ! first)"
    and rest: "first_throw (copy_assign_throws T) (slice src (Suc first) n) = None"
    by (auto split: if_splits)
  have "std_copy T src (Suc first) n (dst[d := src ! first]) (Suc d) =
          Inr (place (dst[d := src ! first]) (Suc d) (slice src (Suc first) n))"
    using Suc.prems rest by (intro Suc.IH) (auto simp: nth_list_update)
  with here quiet src show ?case
    by simp
qed



lemma std_move_backward_length:
  "std_move_backward T b first n d = Inr b' \<Longrightarrow> length b' = length b"
  "std_move_backward T b first n d = Inl (Threw b') \<Longrightarrow> length b' = length b"
  by (induction n arbitrary: b d; auto split: if_splits)+

lemma std_move_ok:
  assumes "Suc d + n \<le> length b"
    and "\<forall>i. d \<le> i \<and> i < d + n \<longrightarrow> b ! i \<noteq> Raw"
    and "\<forall>i. d < i \<and> i \<le> d + n \<longrightarrow> \<not> throws_on (move_assign_throws T) (b ! i)"
  shows "std_move T b (Suc d) n d = Inr (std_move_storage b (Suc d) n d)"
  using assms
proof (induction n arbitrary: b d)
  case 0
  then show ?case by simp
next
  case (Suc n)
  let ?b = "(b[d := b ! Suc d])[Suc d := vacate (b ! Suc d)]"
  from Suc.prems have here: "slot_at b d = b ! d" "b ! d \<noteq> Raw" "slot_at b (Suc d) = b ! Suc d"
    "\<not> throws_on (move_assign_throws T) (b ! Suc d)"
    by (simp_all add: slot_at_def)
  have live: "vacate s \<noteq> Raw" if "s \<noteq> Raw" for s :: "'a slot"
    using that by (cases s) simp_all
  have "std_move T ?b (Suc (Suc d)) n (Suc d) = Inr (std_move_storage ?b (Suc (Suc d)) n (Suc d))"
  proof (rule Suc.IH)
    show "Suc (Suc d) + n \<le> length ?b"
      using Suc.prems by simp
    show "\<forall>i. Suc d \<le> i \<and> i < Suc d + n \<longrightarrow> ?b ! i \<noteq> Raw"
      using Suc.prems live by (auto simp: nth_list_update)
    show "\<forall>i. Suc d < i \<and> i \<le> Suc d + n \<longrightarrow> \<not> throws_on (move_assign_throws T) (?b ! i)"
      using Suc.prems by (auto simp: nth_list_update)
  qed
  with here show ?case
    by simp
qed

lemma std_move_backward_ok:
  assumes "first + n < length b"
    and "\<forall>i. first < i \<and> i \<le> first + n \<longrightarrow> b ! i \<noteq> Raw"
    and "\<forall>i. first \<le> i \<and> i < first + n \<longrightarrow> \<not> throws_on (move_assign_throws T) (b ! i)"
  shows "std_move_backward T b first n (first + n + 1) =
           Inr (std_move_backward_storage b first n (first + n + 1))"
  using assms
proof (induction n arbitrary: b)
  case 0
  then show ?case by simp
next
  case (Suc n)
  let ?b = "(b[first + n + 1 := b ! (first + n)])[first + n := vacate (b ! (first + n))]"
  from Suc.prems have here: "slot_at b (first + n + 1) = b ! (first + n + 1)"
    "b ! (first + n + 1) \<noteq> Raw" "slot_at b (first + n) = b ! (first + n)"
    "\<not> throws_on (move_assign_throws T) (b ! (first + n))"
    by (simp_all add: slot_at_def)
  have "std_move_backward T ?b first n (first + n + 1) =
          Inr (std_move_backward_storage ?b first n (first + n + 1))"
  proof (rule Suc.IH)
    show "first + n < length ?b"
      using Suc.prems by simp
    show "\<forall>i. first < i \<and> i \<le> first + n \<longrightarrow> ?b ! i \<noteq> Raw"
    proof (intro allI impI)
      fix i
      assume i: "first < i \<and> i \<le> first + n"
      show "?b ! i \<noteq> Raw"
      proof (cases "i = first + n")
        case True
        with Suc.prems i have "b ! i \<noteq> Raw" by simp
        then have "vacate (b ! i) \<noteq> Raw" by (cases "b ! i") simp_all
        with True Suc.prems show ?thesis by simp
      next
        case False
        with Suc.prems i show ?thesis by (simp add: nth_list_update)
      qed
    qed
    show "\<forall>i. first \<le> i \<and> i < first + n \<longrightarrow> \<not> throws_on (move_assign_throws T) (?b ! i)"
      using Suc.prems by (auto simp: nth_list_update)
  qed
  with here show ?case
    by simp
qed

section \<open>Emplace and Erase\<close>

lemma elements_shifted:
  assumes "p < n" and "n < length b"
  shows "take (Suc n)
           ((std_move_backward_storage ((b[n := b ! (n - 1)])[n - 1 := vacate (b ! (n - 1))])
               p (n - 1 - p) n)[p := Obj x]) =
         take p b @ Obj x # drop p (take n b)"
proof (rule nth_equalityI)
  show "length (take (Suc n)
           ((std_move_backward_storage ((b[n := b ! (n - 1)])[n - 1 := vacate (b ! (n - 1))])
               p (n - 1 - p) n)[p := Obj x])) =
        length (take p b @ Obj x # drop p (take n b))"
    using assms by simp
next
  fix i
  let ?b1 = "(b[n := b ! (n - 1)])[n - 1 := vacate (b ! (n - 1))]"
  assume "i < length (take (Suc n) ((std_move_backward_storage ?b1 p (n - 1 - p) n)[p := Obj x]))"
  with assms have i: "i \<le> n" by simp
  from assms have n: "n = p + (n - 1 - p) + 1" by simp
  have shift: "std_move_backward_storage ?b1 p (n - 1 - p) n ! i =
      (if p < i \<and> i \<le> p + (n - 1 - p) then ?b1 ! (i - 1)
       else if i = p \<and> 0 < n - 1 - p then vacate (?b1 ! i) else ?b1 ! i)"
    using nth_std_move_backward_storage [of p "n - 1 - p" ?b1 i] assms i n by simp
  show "take (Suc n) ((std_move_backward_storage ?b1 p (n - 1 - p) n)[p := Obj x]) ! i =
        (take p b @ Obj x # drop p (take n b)) ! i"
  proof (cases "i = p")
    case True
    with assms i show ?thesis by (simp add: nth_append)
  next
    case False
    show ?thesis
    proof (cases "i < p")
      case True
      with assms i shift show ?thesis by (simp add: nth_append)
    next
      case False
      with \<open>i \<noteq> p\<close> have gt: "p < i" by simp
      have val: "std_move_backward_storage ?b1 p (n - 1 - p) n ! i = b ! (i - 1)"
      proof (cases "i = n")
        case True
        with assms gt have "\<not> (p < i \<and> i \<le> p + (n - 1 - p))" and "i \<noteq> p"
          by simp_all
        with shift True assms show ?thesis by simp
      next
        case False
        with i assms gt have "p < i \<and> i \<le> p + (n - 1 - p)" and "i - 1 \<noteq> n" and "i - 1 \<noteq> n - 1"
          by simp_all
        with shift assms show ?thesis by simp
      qed
      from gt i assms have "(take p b @ Obj x # drop p (take n b)) ! i = b ! (i - 1)"
        by (simp add: nth_append nth_Cons')
      with val gt i assms show ?thesis by simp
    qed
  qed
qed

lemma drop_destroy_n_front: "p \<le> length b \<Longrightarrow> drop p (destroy_n b 0 p) = drop p b"
  by (simp add: destroy_n_def place_append)

lemma elements_relocated_around:
  assumes "p \<le> n" and "n \<le> length b" and "n < c"
  shows "take (Suc n)
           (place (place (construct_at (Allocate c) p x) 0 (take p b)) (Suc p)
              (slice b p (n - p))) =
         take p b @ Obj x # drop p (take n b)"
proof (rule nth_equalityI)
  show "length (take (Suc n)
           (place (place (construct_at (Allocate c) p x) 0 (take p b)) (Suc p)
              (slice b p (n - p)))) =
        length (take p b @ Obj x # drop p (take n b))"
    using assms by simp
next
  fix i
  assume "i < length (take (Suc n)
           (place (place (construct_at (Allocate c) p x) 0 (take p b)) (Suc p)
              (slice b p (n - p))))"
  with assms have i: "i \<le> n" by simp
  show "take (Suc n)
           (place (place (construct_at (Allocate c) p x) 0 (take p b)) (Suc p)
              (slice b p (n - p))) ! i =
        (take p b @ Obj x # drop p (take n b)) ! i"
  proof (cases "i \<le> p")
    case True
    with assms i show ?thesis
      by (cases "i = p") (auto simp: nth_place nth_append construct_at_def Allocate_def)
  next
    case False
    then obtain j where j: "i = Suc j" by (cases i) simp_all
    with False assms i show ?thesis
      by (auto simp: nth_place nth_append nth_Cons' nth_slice Suc_diff_le)
  qed
qed


lemma first_throw_sub:
  "first_throw f ss = None \<Longrightarrow> set ts \<subseteq> set ss \<Longrightarrow> first_throw f ts = None"
  by (auto simp: first_throw_None)

lemma Erase_elements:
  assumes "p < n" and "n \<le> length b"
  shows "take (n - 1) (std_move_storage (destroy_at b p) (Suc p) (n - Suc p) p) =
         take p (take n b) @ drop (Suc p) (take n b)"
proof (rule nth_equalityI)
  show "length (take (n - 1) (std_move_storage (destroy_at b p) (Suc p) (n - Suc p) p)) =
        length (take p (take n b) @ drop (Suc p) (take n b))"
    using assms by simp
next
  fix i
  assume "i < length (take (n - 1) (std_move_storage (destroy_at b p) (Suc p) (n - Suc p) p))"
  with assms have i: "i < n - 1" by simp
  from assms i show "take (n - 1) (std_move_storage (destroy_at b p) (Suc p) (n - Suc p) p) ! i =
        (take p (take n b) @ drop (Suc p) (take n b)) ! i"
    by (auto simp: nth_std_move_storage nth_append destroy_at_def)
qed

lemma Erase_p000_elements:
  assumes "p < n" and "n \<le> length b"
  shows "take (n - 1) (destroy_at (std_move_storage b (Suc p) (n - Suc p) p) (n - 1)) =
         take p (take n b) @ drop (Suc p) (take n b)"
proof (rule nth_equalityI)
  show "length (take (n - 1) (destroy_at (std_move_storage b (Suc p) (n - Suc p) p) (n - 1))) =
        length (take p (take n b) @ drop (Suc p) (take n b))"
    using assms by simp
next
  fix i
  assume "i < length (take (n - 1) (destroy_at (std_move_storage b (Suc p) (n - Suc p) p) (n - 1)))"
  with assms have i: "i < n - 1" by simp
  from assms i show "take (n - 1) (destroy_at (std_move_storage b (Suc p) (n - Suc p) p) (n - 1)) ! i =
        (take p (take n b) @ drop (Suc p) (take n b)) ! i"
    by (auto simp: nth_std_move_storage nth_append destroy_at_def)
qed



lemma decr_pos [simp]: "0 < n \<Longrightarrow> decr n = n - 1"
  by (simp add: decr_def)

lemma live_vacate: "s \<noteq> Raw \<Longrightarrow> vacate s \<noteq> Raw"
  by (cases s) simp_all

lemma live_if_vacate: "s \<noteq> Raw \<Longrightarrow> (if c then vacate s else s) \<noteq> Raw"
  by (simp add: live_vacate)

lemma live_elements:
  "Raw \<notin> set (elements v) \<Longrightarrow> v_size v \<le> length (v_data v) \<Longrightarrow> i < v_size v \<Longrightarrow>
   v_data v ! i \<noteq> Raw"
  by (metis elements_def in_set_conv_nth length_take min.absorb2 nth_take)

lemma quiet_elements:
  "first_throw f (elements v) = None \<Longrightarrow> v_size v \<le> length (v_data v) \<Longrightarrow> i < v_size v \<Longrightarrow>
   \<not> throws_on f (v_data v ! i)"
  by (metis first_throw_None elements_def in_set_conv_nth length_take min.absorb2 nth_take)


lemma Emplace_ok:
  assumes inv: "v_size v \<le> Capacity v"
    and p: "p \<le> v_size v"
    and reloc: "v_size v = Capacity v \<Longrightarrow>
                first_throw (relocation_throws T) (elements v) = None"
    and mv: "first_throw (move_ctor_throws T) (elements v) = None"
    and live: "Raw \<notin> set (elements v)"
    and quiet: "first_throw (move_assign_throws T) (elements v) = None"
      "\<not> move_assign_throws T x"
  shows "\<exists>v'. Emplace T v p (Some x) = Inr (v', p) \<and>
               elements v' = take p (elements v) @ Obj x # drop p (elements v) \<and>
               v_size v' = Suc (v_size v) \<and>
               Capacity v' = (if v_size v < Capacity v then Capacity v
                              else max 1 (2 * Capacity v))"
proof (cases "v_size v < Capacity v")
  case room: True
  show ?thesis
  proof (cases "p = v_size v")
    case True
    with room inv EmplaceBack_ok [of v T x] p show ?thesis
      by (auto simp: Emplace_def elements_def Capacity_def)
  next
    case False
    with p have lt: "p < v_size v" by simp
    let ?n = "v_size v" and ?b = "v_data v"
    from room have len: "?n < length ?b"
      by (simp add: Capacity_def)
    then have le: "?n \<le> length ?b" by simp
    from lt len have "?n - 1 < length ?b"
      by simp
    then have last: "slot_at ?b (?n - 1) = ?b ! (?n - 1)"
      unfolding slot_at_def by (rule if_P)
    from lt have in_last: "?n - 1 < ?n" by simp
    from quiet_elements [OF mv le in_last] last
    have ctor: "\<not> throws_on (move_ctor_throws T) (slot_at ?b (?n - 1))"
      by simp
    let ?b1 = "(?b[?n := ?b ! (?n - 1)])[?n - 1 := vacate (?b ! (?n - 1))]"
    from lt have n: "?n = p + (?n - 1 - p) + 1" by simp
    have run: "std_move_backward T ?b1 p (?n - 1 - p) (p + (?n - 1 - p) + 1) =
        Inr (std_move_backward_storage ?b1 p (?n - 1 - p) (p + (?n - 1 - p) + 1))"
    proof (rule std_move_backward_ok)
      show "p + (?n - 1 - p) < length ?b1"
        using lt len by simp
      show "\<forall>i. p < i \<and> i \<le> p + (?n - 1 - p) \<longrightarrow> ?b1 ! i \<noteq> Raw"
      proof (intro allI impI)
        fix i
        assume i: "p < i \<and> i \<le> p + (?n - 1 - p)"
        with lt have iN: "i < ?n" by auto
        from live_elements [OF live le iN] live_elements [OF live le in_last] i iN lt len
        show "?b1 ! i \<noteq> Raw"
          by (cases "i = ?n - 1") (auto simp: live_vacate nth_list_update)
      qed
      show "\<forall>i. p \<le> i \<and> i < p + (?n - 1 - p) \<longrightarrow>
              \<not> throws_on (move_assign_throws T) (?b1 ! i)"
      proof (intro allI impI)
        fix i
        assume i: "p \<le> i \<and> i < p + (?n - 1 - p)"
        with lt have iN: "i < ?n" by auto
        from quiet_elements [OF quiet(1) le iN] i iN lt len
        show "\<not> throws_on (move_assign_throws T) (?b1 ! i)"
          by (auto simp: nth_list_update)
      qed
    qed
    let ?b2 = "std_move_backward_storage ?b1 p (?n - 1 - p) ?n"
    from run n have run': "std_move_backward T ?b1 p (?n - 1 - p) ?n = Inr ?b2"
      by simp
    have at_p: "?b2 ! p = (if 0 < ?n - 1 - p then vacate (?b1 ! p) else ?b1 ! p)"
      using nth_std_move_backward_storage [of p "?n - 1 - p" ?b1 p] lt len n by simp
    have b1p: "?b1 ! p \<noteq> Raw"
      using live_elements [OF live le lt] live_elements [OF live le in_last] lt len
      by (cases "p = ?n - 1") (auto simp: live_vacate nth_list_update)
    have b2p: "?b2 ! p \<noteq> Raw"
      unfolding at_p using b1p by (rule live_if_vacate)
    have "p < length ?b2"
      using lt len by simp
    then have sl: "slot_at ?b2 p = ?b2 ! p"
      unfolding slot_at_def by (rule if_P)
    have target: "slot_at ?b2 p \<noteq> Raw"
      unfolding sl by (rule b2p)
    from room lt ctor last run' target quiet(2) elements_shifted [OF lt len, of x] show ?thesis
      by (simp add: Emplace_def Let_def elements_def Capacity_def)
  qed
next
  case False
  with inv have eq: "v_size v = Capacity v" by simp
  let ?n = "v_size v"
  let ?b = "v_data v"
  let ?c = "if ?n = 0 then 1 else ?n * 2"
  from eq have len: "?n \<le> length ?b"
    by (simp add: Capacity_def)
  have quiet: "first_throw (relocation_throws T) (take ?n ?b) = None"
    using reloc [OF eq] by (simp add: elements_def)
  have "set (take p ?b) \<subseteq> set (take ?n ?b)"
    using p by (rule set_take_subset_set_take)
  with quiet have pre: "first_throw (relocation_throws T) (slice ?b 0 p) = None"
    unfolding slice_0 by (rule first_throw_sub)
  have r1: "ReplaceElementsInMemory T ?b 0 (construct_at (Allocate ?c) p x) 0 p =
              Inr (destroy_n ?b 0 p, place (construct_at (Allocate ?c) p x) 0 (take p ?b))"
    using ReplaceElementsInMemory_ok [OF pre] by simp
  from p len have sl: "slice (destroy_n ?b 0 p) p (?n - p) = slice ?b p (?n - p)"
    by (simp add: slice_def drop_destroy_n_front)
  have "set (slice ?b p (?n - p)) \<subseteq> set (take ?n ?b)"
    using p by (auto simp: slice_def take_drop dest: in_set_dropD)
  with quiet have post: "first_throw (relocation_throws T) (slice (destroy_n ?b 0 p) p (?n - p)) = None"
    unfolding sl by (rule first_throw_sub)
  have r2: "ReplaceElementsInMemory T (destroy_n ?b 0 p) p
              (place (construct_at (Allocate ?c) p x) 0 (take p ?b)) (p + 1) (?n - p) =
            Inr (destroy_n (destroy_n ?b 0 p) p (?n - p),
                 place (place (construct_at (Allocate ?c) p x) 0 (take p ?b)) (p + 1)
                   (slice ?b p (?n - p)))"
    using ReplaceElementsInMemory_ok [OF post] sl by simp
  have lt: "?n < ?c" by simp
  from False eq p r1 r2 elements_relocated_around [OF p len lt, of x] show ?thesis
    by (auto simp: Emplace_def Let_def elements_def Capacity_def max_def Suc_le_eq)
qed


lemma Erase_p000_ok:
  assumes inv: "v_size v \<le> Capacity v" and p: "p < v_size v"
    and live: "Raw \<notin> set (elements v)"
    and quiet: "first_throw (move_assign_throws T) (elements v) = None"
  shows "\<exists>v'. Erase_p000 T v p = Inr (v', p) \<and>
               elements v' = take p (elements v) @ drop (Suc p) (elements v) \<and>
               v_size v' = v_size v - 1 \<and> Capacity v' = Capacity v \<and>
               slot_at (v_data v') (v_size v - 1) = Raw"
proof -
  let ?n = "v_size v" and ?b = "v_data v"
  from inv have len: "?n \<le> length ?b"
    by (simp add: Capacity_def)
  have run: "std_move T ?b (Suc p) (?n - Suc p) p = Inr (std_move_storage ?b (Suc p) (?n - Suc p) p)"
  proof (rule std_move_ok)
    show "Suc p + (?n - Suc p) \<le> length ?b"
      using p len by simp
    show "\<forall>i. p \<le> i \<and> i < p + (?n - Suc p) \<longrightarrow> ?b ! i \<noteq> Raw"
      using live_elements [OF live len] p by auto
    show "\<forall>i. p < i \<and> i \<le> p + (?n - Suc p) \<longrightarrow> \<not> throws_on (move_assign_throws T) (?b ! i)"
      using quiet_elements [OF quiet len] p by auto
  qed
  from p len run Erase_p000_elements [OF p len] show ?thesis
    by (simp add: Erase_p000_def PopBack_def elements_def Capacity_def slot_at_def destroy_at_def)
qed

text \<open>\<open>Erase\<close> of \<open>advanced-vector/vector.h\<close> at a position that has an element after
  it: the first move assignment goes into the slot that \<open>destroy_at\<close> has just left raw.\<close>

lemma Erase_undefined:
  assumes inv: "v_size v \<le> Capacity v" and p: "Suc p < v_size v"
  shows "Erase T v p = Inl Undefined"
proof -
  from inv p have "p < length (v_data v)"
    by (simp add: Capacity_def)
  then have raw: "slot_at (destroy_at (v_data v) p) p = Raw"
    by (simp add: slot_at_def destroy_at_def)
  from p obtain k where k: "v_size v - (p + 1) = Suc k"
    by (cases "v_size v - (p + 1)") simp_all
  from p have "\<not> v_size v < p" "p \<noteq> v_size v"
    by simp_all
  with raw k show ?thesis
    by (simp add: Erase_def)
qed

lemma Erase_last:
  assumes "0 < v_size v"
  shows "Erase T v (v_size v - 1) =
           Inr (\<lparr>v_data = destroy_at (v_data v) (v_size v - 1), v_size = v_size v - 1\<rparr>,
                v_size v - 1)"
    and "Erase_p000 T v (v_size v - 1) = Erase T v (v_size v - 1)"
  using assms by (auto simp: Erase_def Erase_p000_def PopBack_def)

lemma Erase_at_end:
  assumes "0 < v_size v"
  shows "Erase T v (v_size v) =
           Inr (\<lparr>v_data = destroy_at (v_data v) (v_size v - 1), v_size = v_size v - 1\<rparr>,
                v_size v - 1)"
    and "Erase_p000 T v (v_size v) = Erase T v (v_size v)"
  using assms by (simp_all add: Erase_def Erase_p000_def PopBack_def)

text \<open>The storage after the statements of the first \<open>Erase\<close>: the values are shifted,
  and the last slot still holds the object that was moved from.\<close>

lemma Erase_storage_elements:
  assumes inv: "v_size v \<le> Capacity v" and p: "p < v_size v"
  shows "elements (fst (Erase_storage v p)) = take p (elements v) @ drop (Suc p) (elements v)"
    and "v_size (fst (Erase_storage v p)) = v_size v - 1"
proof -
  from inv have len: "v_size v \<le> length (v_data v)"
    by (simp add: Capacity_def)
  from p Erase_elements [OF p len]
  show "elements (fst (Erase_storage v p)) = take p (elements v) @ drop (Suc p) (elements v)"
    by (simp add: Erase_storage_def elements_def)
  from p show "v_size (fst (Erase_storage v p)) = v_size v - 1"
    by (simp add: Erase_storage_def)
qed

lemma Erase_storage_last_slot:
  assumes inv: "v_size v \<le> Capacity v" and p: "Suc p < v_size v"
  shows "slot_at (v_data (fst (Erase_storage v p))) (v_size v - 1) =
           vacate (v_data v ! (v_size v - 1))"
proof -
  from inv have len: "v_size v \<le> length (v_data v)"
    by (simp add: Capacity_def)
  from p len have last: "v_size v - 1 < length (v_data v)" and ne: "v_size v - 1 \<noteq> p"
    by simp_all
  from p len have "std_move_storage (destroy_at (v_data v) p) (Suc p) (v_size v - Suc p) p ! (v_size v - 1)
      = vacate (destroy_at (v_data v) p ! (v_size v - 1))"
    by (simp add: nth_std_move_storage)
  with p last ne show ?thesis
    by (simp add: Erase_storage_def slot_at_def destroy_at_def)
qed


lemma Emplace_bound_size:
  assumes "Emplace T v p ctor = Inr (v1, r)"
  shows "v_size v1 = Suc (v_size v)"
    and "v_size v \<le> Capacity v \<Longrightarrow> v_size v1 \<le> Capacity v1"
proof -
  have grow: "v_size v < (if v_size v = 0 then 1 else v_size v * 2)"
    by simp
  from assms show "v_size v1 = Suc (v_size v)"
    by (auto simp: Emplace_def EmplaceBack_def Let_def
        split: if_splits option.splits sum.splits failure.splits)
  assume "v_size v \<le> Capacity v"
  with assms grow show "v_size v1 \<le> Capacity v1"
    by (auto simp: Emplace_def EmplaceBack_def Let_def Capacity_def construct_at_def Suc_le_eq
        dest!: length_ReplaceElementsInMemory std_move_backward_length
        split: if_splits option.splits sum.splits failure.splits)
qed

lemma Emplace_then_Erase_p000:
  assumes inv: "size_le_capacity v"
    and p: "p \<le> v_size v"
    and reloc: "v_size v = Capacity v \<longrightarrow>
                first_throw (relocation_throws T) (elements v) = None"
    and mv: "first_throw (move_ctor_throws T) (elements v) = None"
    and live: "Raw \<notin> set (elements v)"
    and quiet: "first_throw (move_assign_throws T) (elements v) = None"
      "\<not> move_assign_throws T x"
  shows "\<exists>v1 v2. Emplace T v p (Some x) = Inr (v1, p) \<and>
           Erase_p000 T v1 p = Inr (v2, p) \<and> v_size v2 = v_size v \<and> elements v2 = elements v"
proof -
  from inv have le: "v_size v \<le> Capacity v"
    by (simp add: size_le_capacity_def)
  from reloc have r: "v_size v = Capacity v \<Longrightarrow>
      first_throw (relocation_throws T) (elements v) = None"
    by simp
  from Emplace_ok [OF le p r mv live quiet] obtain v1 where
    ins: "Emplace T v p (Some x) = Inr (v1, p)"
    and e1: "elements v1 = take p (elements v) @ Obj x # drop p (elements v)"
    and s1: "v_size v1 = Suc (v_size v)"
    and c1: "Capacity v1 = (if v_size v < Capacity v then Capacity v else max 1 (2 * Capacity v))"
    by blast
  from le s1 c1 have le1: "v_size v1 \<le> Capacity v1"
    by (auto simp: max_def)
  from p s1 have p1: "p < v_size v1"
    by simp
  from le p have lp: "length (take p (elements v)) = p"
    by (simp add: elements_def Capacity_def)
  have restored: "take p (elements v1) @ drop (Suc p) (elements v1) = elements v"
    unfolding e1 using lp by simp
  have live1: "Raw \<notin> set (elements v1)"
    unfolding e1 using live by (auto dest: in_set_takeD in_set_dropD)
  have "\<forall>s \<in> set (elements v1). \<not> throws_on (move_assign_throws T) s"
    unfolding e1 using quiet by (auto simp: first_throw_None dest: in_set_takeD in_set_dropD)
  then have quiet1: "first_throw (move_assign_throws T) (elements v1) = None"
    by (simp add: first_throw_None)
  from Erase_p000_ok [OF le1 p1 live1 quiet1] obtain v2 where
    "Erase_p000 T v1 p = Inr (v2, p)"
    "elements v2 = take p (elements v1) @ drop (Suc p) (elements v1)"
    "v_size v2 = v_size v1 - 1"
    by blast
  with ins restored s1 show ?thesis
    by simp
qed

text \<open>With the out-of-line \<open>Erase\<close>, inserting and then erasing at the same position
  gives back the size and the elements, for each overload of \<open>Insert\<close> under its own
  condition on \<open>x\<close>.\<close>

lemma Insert_then_Erase_p000_restores:
  assumes "size_le_capacity v" and "p \<le> v_size v"
    and "v_size v = Capacity v \<longrightarrow> first_throw (relocation_throws T) (elements v) = None"
    and "first_throw (move_ctor_throws T) (elements v) = None"
    and "Raw \<notin> set (elements v)"
    and "first_throw (move_assign_throws T) (elements v) = None"
    and "\<not> move_assign_throws T x"
  shows "\<not> copy_throws T x \<Longrightarrow>
           \<exists>v1 v2. Insert_copy T v p x = Inr (v1, p) \<and> Erase_p000 T v1 p = Inr (v2, p) \<and>
                   v_size v2 = v_size v \<and> elements v2 = elements v"
    and "\<not> move_ctor_throws T x \<Longrightarrow>
           \<exists>v1 v2. Insert_move T v p x = Inr (v1, p) \<and> Erase_p000 T v1 p = Inr (v2, p) \<and>
                   v_size v2 = v_size v \<and> elements v2 = elements v"
  using Emplace_then_Erase_p000 [OF assms]
  by (simp_all add: Insert_copy_def Insert_move_def copy_of_def move_of_def)

text \<open>With \<open>Erase\<close> of \<open>advanced-vector/vector.h\<close>, erasing what was inserted before the
  end is undefined, whatever the vector and the value.\<close>

lemma Insert_then_Erase_undefined:
  assumes ins: "Emplace T v p ctor = Inr (v1, r)" and p: "p < v_size v"
    and inv: "size_le_capacity v"
  shows "Erase T v1 p = Inl Undefined"
proof -
  from inv Emplace_bound_size [OF ins] p have "v_size v1 \<le> Capacity v1" "Suc p < v_size v1"
    by (simp_all add: size_le_capacity_def)
  then show ?thesis
    by (rule Erase_undefined)
qed


text \<open>
  Claim C9. Inserting \<open>x\<close> at a valid position \<open>p\<close> and then erasing at \<open>p\<close> gives back
  the original size and the original element sequence. With the out-of-line \<open>Erase\<close> this
  holds whenever the insertion returns (\<open>Insert_then_Erase_p000_restores\<close>). With
  \<open>Erase\<close> of \<open>advanced-vector/vector.h\<close> it holds only for \<open>p = size_\<close>
  (\<open>Erase_last\<close>): for every position before the end the erasure destroys slot \<open>p\<close>
  and then move-assigns into it (\<open>Insert_then_Erase_undefined\<close>). Inserting \<open>9\<close> at
  position \<open>1\<close> of \<open>[1, 3]\<close> (capacity \<open>3\<close>) gives \<open>[1, 9, 3]\<close>; erasing at position
  \<open>1\<close> is then undefined in \<open>advanced-vector/vector.h\<close> and gives back \<open>[1, 3]\<close> in the
  out-of-line definition.
\<close>

theorem Insert_then_Erase_assigns_to_destroyed:
  "Insert_copy T_copy_throws_2 \<lparr>v_data = [Obj 1, Obj 3, Raw], v_size = 2\<rparr> 1 9 =
     Inr (\<lparr>v_data = [Obj 1, Obj 9, Obj 3], v_size = 3\<rparr>, 1) \<and>
   Erase T_copy_throws_2 \<lparr>v_data = [Obj 1, Obj 9, Obj 3], v_size = 3\<rparr> 1 = Inl Undefined \<and>
   Erase_p000 T_copy_throws_2 \<lparr>v_data = [Obj 1, Obj 9, Obj 3], v_size = 3\<rparr> 1 =
     Inr (\<lparr>v_data = [Obj 1, Obj 3, Raw], v_size = 2\<rparr>, 1)"
  by (simp add: Insert_copy_def copy_of_def Emplace_def Erase_def Erase_p000_def PopBack_def
      Capacity_def construct_at_def destroy_at_def slot_at_def decr_def Let_def
      move_ctor_throws_def T_copy_throws_2_def eval_nat_numeral)

text \<open>
  Claim C4. Erasing at \<open>p\<close> shifts the later elements left by move assignment and then
  destroys the vacated last slot. \<open>Erase\<close> of \<open>advanced-vector/vector.h\<close> destroys slot
  \<open>p\<close> first and then move-assigns into it, so erasing position \<open>0\<close> of \<open>[1, 2, 3]\<close> is
  undefined (\<open>Erase_undefined\<close> for every position with an element behind it), and it
  never destroys the last slot: where the assignments are carried out on the storage,
  the elements and the size are the ones the claim describes (\<open>Erase_storage_elements\<close>)
  and a moved-from object is left in slot \<open>2\<close>, beyond the new size
  (\<open>Erase_storage_last_slot\<close>). The out-of-line \<open>Erase\<close> leaves that slot raw, as the
  claim says (\<open>Erase_p000_ok\<close> for every position before the end). At \<open>p = size_\<close> and
  at the last element the two agree (\<open>Erase_at_end\<close>, \<open>Erase_last\<close>).
\<close>

theorem Erase_skips_last_slot:
  "Erase T_copy_throws_2 \<lparr>v_data = [Obj 1, Obj 2, Obj 3], v_size = 3\<rparr> 0 = Inl Undefined \<and>
   Erase_storage \<lparr>v_data = [Obj 1, Obj 2, Obj (3::nat)], v_size = 3\<rparr> 0 =
     (\<lparr>v_data = [Obj 2, Obj 3, Husk], v_size = 2\<rparr>, 0) \<and>
   Erase_p000 T_copy_throws_2 \<lparr>v_data = [Obj 1, Obj 2, Obj 3], v_size = 3\<rparr> 0 =
     Inr (\<lparr>v_data = [Obj 2, Obj 3, Raw], v_size = 2\<rparr>, 0)"
  by (simp add: Erase_def Erase_p000_def Erase_storage_def PopBack_def destroy_at_def
      slot_at_def decr_def Let_def T_copy_throws_2_def
      eval_nat_numeral)

section \<open>Emplace when relocation throws\<close>

lemma place_raw_on_raw:
  assumes "\<forall>i. d \<le> i \<and> i < d + k \<and> i < length b \<longrightarrow> b ! i = Raw"
  shows "place b d (replicate k Raw) = b"
  by (rule nth_equalityI) (use assms in \<open>auto simp: nth_place\<close>)

lemma destroy_n_destroy_n_front:
  "destroy_n (destroy_n b 0 p) 0 (Suc p) = destroy_n b 0 (Suc p)"
  by (rule nth_equalityI) (auto simp: nth_destroy_n)

lemma prefix_rollback:
  "destroy_at (place (construct_at (Allocate c) p x) 0 (replicate k Raw)) p = Allocate c"
proof (rule nth_equalityI)
  show "length (destroy_at (place (construct_at (Allocate c) p x) 0 (replicate k Raw)) p) =
        length (Allocate c :: 'a slot list)"
    by simp
next
  fix i
  assume "i < length (destroy_at (place (construct_at (Allocate c) p x) 0 (replicate k Raw)) p)"
  then have "i < c" by simp
  then show "destroy_at (place (construct_at (Allocate c) p x) 0 (replicate k Raw)) p ! i =
             Allocate c ! i"
    by (cases "i = p") (auto simp: destroy_at_def nth_place construct_at_def Allocate_def)
qed

lemma Emplace_prefix_failure:
  assumes by_copy: "\<not> nothrow_move_constructible T" "copy_constructible T"
    and full: "v_size v = Capacity v"
    and p: "p \<le> v_size v"
    and throws: "first_throw (copy_throws T) (take p (v_data v)) = Some k"
  shows "Emplace T v p (Some x) = Inl (Threw (v, Allocate (max 1 (2 * Capacity v))))"
proof -
  let ?c = "if v_size v = 0 then 1 else v_size v * 2"
  have c: "?c = max 1 (2 * Capacity v)"
    using full by (simp add: max_def)
  have "destroy_at (place (construct_at (Allocate ?c) p x) 0 (replicate k Raw)) p = Allocate ?c"
    by (rule prefix_rollback)
  with by_copy full p throws show ?thesis
    unfolding c [symmetric]
    by (simp add: Emplace_def Let_def ReplaceElementsInMemory_def uninitialized_copy_n_def)
qed

lemma Emplace_suffix_failure:
  assumes by_copy: "\<not> nothrow_move_constructible T" "copy_constructible T"
    and full: "v_size v = Capacity v"
    and p: "p \<le> v_size v"
    and prefix: "first_throw (copy_throws T) (take p (v_data v)) = None"
    and throws: "first_throw (copy_throws T) (slice (v_data v) p (v_size v - p)) = Some k"
  shows "Emplace T v p (Some x) =
           Inl (Threw (v\<lparr>v_data := destroy_n (v_data v) 0 (Suc p)\<rparr>,
                       place (construct_at (Allocate (max 1 (2 * Capacity v))) p x) 0
                         (take p (v_data v))))"
proof -
  let ?n = "v_size v"
  let ?b = "v_data v"
  let ?c = "if ?n = 0 then 1 else ?n * 2"
  let ?new1 = "place (construct_at (Allocate ?c) p x) 0 (take p ?b)"
  from full have len: "?n \<le> length ?b"
    by (simp add: Capacity_def)
  have c: "?c = max 1 (2 * Capacity v)"
    using full by (simp add: max_def)
  from p len have sl: "slice (destroy_n ?b 0 p) p (?n - p) = slice ?b p (?n - p)"
    by (simp add: slice_def drop_destroy_n_front)
  have raw: "place ?new1 (Suc p) (replicate k Raw) = ?new1"
    by (rule place_raw_on_raw)
       (use p len in \<open>auto simp: nth_place construct_at_def Allocate_def\<close>)
  from by_copy full p prefix throws sl raw show ?thesis
    unfolding c [symmetric]
    by (simp add: Emplace_def Let_def ReplaceElementsInMemory_def uninitialized_copy_n_def
        destroy_n_destroy_n_front)
qed

text \<open>
  Claim C1. When \<open>Emplace\<close> grows the buffer and relocating the suffix \<open>[p, size)\<close>
  throws, everything built in the new buffer is destroyed and the original elements
  stay intact. The handler runs \<open>std::destroy_n(begin(), position_index + 1)\<close>, and
  \<open>begin()\<close> is still the old buffer, whose prefix \<open>ReplaceElementsInMemory\<close> has
  already destroyed. Inserting at position \<open>1\<close> of \<open>[1, 2]\<close> when copying \<open>2\<close>
  throws: the container keeps size \<open>2\<close> with both slots destroyed, and the abandoned
  buffer still holds the copy of \<open>1\<close> and the new element, never destroyed.
  \<open>Emplace_suffix_failure\<close> is the same for every input relocated by copy;
  \<open>Emplace_prefix_failure\<close> shows that the prefix half of the claim holds there.
\<close>

theorem Emplace_suffix_failure_corrupts:
  "Emplace T_copy_throws_2 \<lparr>v_data = [Obj 1, Obj 2], v_size = 2\<rparr> 1 (Some 9) =
     Inl (Threw (\<lparr>v_data = [Raw, Raw], v_size = 2\<rparr>, [Obj 1, Obj 9, Raw, Raw]))"
  by (simp add: Emplace_def Let_def ReplaceElementsInMemory_def uninitialized_copy_n_def
      Capacity_def T_copy_throws_2_def Allocate_def construct_at_def destroy_n_def
      destroy_at_def slice_def eval_nat_numeral)

text \<open>For a type that is relocated by move although its move constructor may throw,
  a failing prefix leaves the elements already moved as moved-from objects.\<close>

lemma Emplace_prefix_failure_by_move:
  "Emplace T_move_only_throws_2 \<lparr>v_data = [Obj 1, Obj 2, Obj 3], v_size = 3\<rparr> 2 (Some 9) =
     Inl (Threw (\<lparr>v_data = [Husk, Obj 2, Obj 3], v_size = 3\<rparr>, [Raw, Raw, Raw, Raw, Raw, Raw]))"
  by (simp add: Emplace_def Let_def ReplaceElementsInMemory_def uninitialized_move_n_def
      Capacity_def T_move_only_throws_2_def Allocate_def construct_at_def destroy_n_def
      destroy_at_def slice_def move_ctor_throws_def eval_nat_numeral)

section \<open>Move construction and move assignment\<close>

lemma Swap_exchanges:
  "Swap s this other this = s other \<and> Swap s this other other = s this \<and>
   (a \<noteq> this \<and> a \<noteq> other \<longrightarrow> Swap s this other a = s a)"
  by (simp add: Swap_def)

text \<open>
  Claim C3, as the code has it. Move construction leaves the source empty (size \<open>0\<close>,
  capacity \<open>0\<close>) and gives the destination exactly the source's former elements, size
  and capacity. Move assignment between two distinct vectors swaps them: the
  destination gets the source's former state and the source gets the destination's
  former state. Move assignment of a vector to itself changes nothing.
\<close>

theorem assign_move_swaps:
  assumes "this \<noteq> other"
  shows "Vector_move s this other this = s other \<and>
         Vector_move s this other other = Vector_default \<and>
         Size (Vector_move s this other other) = 0 \<and>
         Capacity (Vector_move s this other other) = 0 \<and>
         assign_move s this other this = s other \<and>
         assign_move s this other other = s this \<and>
         assign_move s this this = s"
  using assms
  by (simp add: Vector_move_def assign_move_def Swap_def Vector_default_def Size_def
      Capacity_def)

theorem assign_move_swaps_witness:
  "Vector_move two_vectors 2 1 2 = \<lparr>v_data = [Obj 2, Obj 3], v_size = 2\<rparr> \<and>
   Vector_move two_vectors 2 1 1 = Vector_default \<and>
   assign_move two_vectors 0 1 0 = \<lparr>v_data = [Obj 2, Obj 3], v_size = 2\<rparr> \<and>
   assign_move two_vectors 0 1 1 = \<lparr>v_data = [Obj 1], v_size = 1\<rparr>"
proof -
  have a: "(2::nat) \<noteq> 1" and b: "(0::nat) \<noteq> 1"
    by simp_all
  from assign_move_swaps [OF a, of two_vectors] assign_move_swaps [OF b, of two_vectors]
  show ?thesis
    by (simp add: two_vectors_def)
qed

text \<open>Move-assigning \<open>[2, 3]\<close> to a vector that holds \<open>[1]\<close> leaves the source with
  \<open>[1]\<close>, size \<open>1\<close> and capacity \<open>1\<close>, not empty.\<close>

theorem assign_move_source_not_empty:
  "Size (assign_move two_vectors 0 1 1) = 1 \<and> Capacity (assign_move two_vectors 0 1 1) = 1 \<and>
   elements (assign_move two_vectors 0 1 1) = [Obj 1] \<and>
   \<not> (Size (assign_move two_vectors 0 1 1) = 0 \<and> Capacity (assign_move two_vectors 0 1 1) = 0)"
  by (simp add: assign_move_def Swap_def two_vectors_def Size_def Capacity_def elements_def)

section \<open>Copy assignment\<close>

lemma Vector_copy_ok:
  assumes inv: "v_size other \<le> Capacity other"
    and quiet: "first_throw (copy_throws T) (elements other) = None"
  shows "Vector_copy T other = Inr \<lparr>v_data = elements other, v_size = v_size other\<rparr>"
proof -
  from inv have "place (Allocate (v_size other)) 0 (take (v_size other) (v_data other)) =
      take (v_size other) (v_data other)"
    by (simp add: place_append Capacity_def)
  with quiet show ?thesis
    by (simp add: Vector_copy_def uninitialized_copy_n_def elements_def)
qed

lemma take_copy_then_destroy:
  assumes "m \<le> length src" and "m \<le> length dst"
  shows "take m (destroy_n (place dst 0 (take m src)) m k) = take m src"
  by (rule nth_equalityI) (use assms in \<open>auto simp: nth_destroy_n nth_place\<close>)

lemma take_copy_then_construct:
  assumes "n \<le> m" and "m \<le> length src" and "m \<le> length dst"
  shows "take m (place (place dst 0 (take n src)) n (slice src n (m - n))) = take m src"
proof (rule nth_equalityI)
  show "length (take m (place (place dst 0 (take n src)) n (slice src n (m - n)))) =
        length (take m src)"
    using assms by simp
next
  fix i
  assume "i < length (take m (place (place dst 0 (take n src)) n (slice src n (m - n))))"
  with assms have i: "i < m"
    by simp
  show "take m (place (place dst 0 (take n src)) n (slice src n (m - n))) ! i = take m src ! i"
  proof (cases "i < n")
    case True
    with assms i show ?thesis
      by (simp add: nth_place)
  next
    case False
    then have "slice src n (m - n) ! (i - n) = src ! (n + (i - n))"
      using assms i by (intro nth_slice) auto
    with False assms i show ?thesis
      by (simp add: nth_place)
  qed
qed

lemma std_copy_prefix:
  assumes n: "n \<le> v_size a" "n \<le> v_size b"
    and inv: "v_size a \<le> Capacity a" "v_size b \<le> Capacity b"
    and live: "Raw \<notin> set (elements a)"
    and quiet: "first_throw (copy_assign_throws T) (elements b) = None"
  shows "std_copy T (v_data b) 0 n (v_data a) 0 = Inr (place (v_data a) 0 (take n (v_data b)))"
proof -
  have "set (slice (v_data b) 0 n) \<subseteq> set (elements b)"
    using n by (simp add: elements_def set_take_subset_set_take)
  with quiet have q: "first_throw (copy_assign_throws T) (slice (v_data b) 0 n) = None"
    by (rule first_throw_sub)
  have l: "\<forall>i. 0 \<le> i \<and> i < 0 + n \<longrightarrow> v_data a ! i \<noteq> Raw"
    using live_elements [OF live] n inv by (auto simp: Capacity_def)
  from n inv have "0 + n \<le> length (v_data b)" "0 + n \<le> length (v_data a)"
    by (simp_all add: Capacity_def)
  from std_copy_ok [OF this l q] show ?thesis
    by simp
qed

lemma assign_copy_p000_ok:
  assumes ne: "this \<noteq> rhs"
    and inv: "v_size (s this) \<le> Capacity (s this)" "v_size (s rhs) \<le> Capacity (s rhs)"
    and quiet: "first_throw (copy_throws T) (elements (s rhs)) = None"
    and live: "Raw \<notin> set (elements (s this))"
    and quiet_assign: "first_throw (copy_assign_throws T) (elements (s rhs)) = None"
  shows "\<exists>s'. assign_copy_p000 T s this rhs = Inr s' \<and>
              elements (s' this) = elements (s rhs) \<and>
              v_size (s' this) = v_size (s rhs) \<and>
              s' rhs = s rhs"
proof -
  let ?nt = "v_size (s this)" and ?nr = "v_size (s rhs)"
  let ?bt = "v_data (s this)" and ?br = "v_data (s rhs)"
  from inv have lt: "?nt \<le> length ?bt" and lr: "?nr \<le> length ?br"
    by (simp_all add: Capacity_def)
  consider (grow) "Capacity (s this) < ?nr"
    | (shrink) "\<not> Capacity (s this) < ?nr" "?nr < ?nt"
    | (extend) "\<not> Capacity (s this) < ?nr" "\<not> ?nr < ?nt"
    by blast
  then show ?thesis
  proof cases
    case grow
    with ne Vector_copy_ok [OF inv(2) quiet] lr show ?thesis
      by (simp add: assign_copy_p000_def elements_def)
  next
    case shrink
    then have cap: "?nr \<le> length ?bt" and le: "?nr \<le> ?nt" "?nr \<le> ?nr"
      using lt by simp_all
    from std_copy_prefix [OF le inv live quiet_assign]
    have "std_copy T ?br 0 ?nr ?bt 0 = Inr (place ?bt 0 (take ?nr ?br))" .
    with take_copy_then_destroy [OF lr cap] shrink ne show ?thesis
      by (simp add: assign_copy_p000_def Let_def elements_def)
  next
    case extend
    then have le: "?nt \<le> ?nr" and cap: "?nr \<le> length ?bt"
      by (simp_all add: Capacity_def)
    have "set (slice ?br ?nt (?nr - ?nt)) \<subseteq> set (elements (s rhs))"
      using le by (auto simp: slice_def elements_def take_drop dest: in_set_dropD)
    with quiet have q: "first_throw (copy_throws T) (slice ?br ?nt (?nr - ?nt)) = None"
      by (rule first_throw_sub)
    from std_copy_prefix [OF order_refl le inv live quiet_assign]
    have "std_copy T ?br 0 ?nt ?bt 0 = Inr (place ?bt 0 (take ?nt ?br))" .
    with q take_copy_then_construct [OF le lr cap] extend ne show ?thesis
      by (simp add: assign_copy_p000_def Let_def elements_def uninitialized_copy_n_def)
  qed
qed

lemma assign_copy_agrees:
  assumes "this = rhs \<or> Capacity (s this) < v_size (s rhs) \<or>
           v_size (s rhs) \<le> v_size (s this) \<or> v_size (s this) = 0"
  shows "assign_copy T s this rhs = assign_copy_p000 T s this rhs"
proof -
  consider (self) "this = rhs"
    | (grow) "this \<noteq> rhs" "Capacity (s this) < v_size (s rhs)"
    | (shrink) "this \<noteq> rhs" "\<not> Capacity (s this) < v_size (s rhs)"
        "v_size (s rhs) < v_size (s this)"
    | (same) "this \<noteq> rhs" "\<not> Capacity (s this) < v_size (s rhs)"
        "v_size (s rhs) = v_size (s this)"
    | (empty) "this \<noteq> rhs" "\<not> Capacity (s this) < v_size (s rhs)"
        "\<not> v_size (s rhs) < v_size (s this)" "v_size (s this) = 0"
    using assms by force
  then show ?thesis
  proof cases
    case self
    then show ?thesis
      by (simp add: assign_copy_def assign_copy_p000_def)
  next
    case grow
    then show ?thesis
      by (simp add: assign_copy_def assign_copy_p000_def)
  next
    case shrink
    then show ?thesis
      by (simp add: assign_copy_def assign_copy_p000_def assign_loop_std_copy)
  next
    case same
    then show ?thesis
      by (auto simp: assign_copy_def assign_copy_p000_def assign_loop_std_copy
          uninitialized_copy_n_def slice_def split: sum.splits failure.splits)
  next
    case empty
    then show ?thesis
      by (simp add: assign_copy_def assign_copy_p000_def)
  qed
qed

lemma assign_copy_third_branch:
  assumes ne: "this \<noteq> rhs"
    and inv: "v_size (s this) \<le> Capacity (s this)" "v_size (s rhs) \<le> Capacity (s rhs)"
    and sizes: "0 < v_size (s this)" "v_size (s this) < v_size (s rhs)"
      "v_size (s rhs) \<le> Capacity (s this)"
    and quiet: "first_throw (copy_throws T) (elements (s rhs)) = None"
    and live: "Raw \<notin> set (elements (s this))"
    and quiet_assign: "first_throw (copy_assign_throws T) (elements (s rhs)) = None"
  shows "\<exists>s'. assign_copy T s this rhs = Inr s' \<and>
              v_size (s' this) = v_size (s rhs) \<and>
              v_data (s' this) ! (v_size (s rhs) - 1) = v_data (s this) ! (v_size (s rhs) - 1)"
proof -
  let ?nt = "v_size (s this)" and ?nr = "v_size (s rhs)"
  let ?bt = "v_data (s this)" and ?br = "v_data (s rhs)"
  from inv have lr: "?nr \<le> length ?br"
    by (simp add: Capacity_def)
  from sizes have cap: "?nr \<le> length ?bt" and le: "?nt \<le> ?nr"
    by (simp_all add: Capacity_def)
  have "set (slice ?br 0 (?nr - ?nt)) \<subseteq> set (elements (s rhs))"
    by (simp add: elements_def set_take_subset_set_take)
  with quiet have q: "first_throw (copy_throws T) (slice ?br 0 (?nr - ?nt)) = None"
    by (rule first_throw_sub)
  from std_copy_prefix [OF order_refl le inv live quiet_assign]
  have loop: "assign_loop T ?bt ?br 0 ?nt = Inr (place ?bt 0 (take ?nt ?br))"
    by (simp add: assign_loop_std_copy)
  from sizes cap lr have idx: "?nr - 1 < length ?bt" "\<not> ?nr - 1 < ?nr - ?nt" "\<not> ?nr - 1 < ?nt"
    "?nt \<le> length ?br"
    by simp_all
  then have "place (place ?bt 0 (take ?nt ?br)) 0 (take (?nr - ?nt) ?br) ! (?nr - 1) = ?bt ! (?nr - 1)"
    by (simp add: nth_place)
  with ne sizes q loop show ?thesis
    by (simp add: assign_copy_def Let_def uninitialized_copy_n_def)
qed

text \<open>
  Claim C6. After \<open>a = b\<close> the destination has the size and the elements of \<open>b\<close>, and
  \<open>b\<close> is unchanged. In the branch for \<open>a.size <= b.size <= a.capacity\<close> the copy
  assignment of \<open>advanced-vector/vector.h\<close> ends with
  \<open>std::uninitialized_copy_n(rhs.begin(), rhs.size_ - i, begin())\<close>: it constructs over
  the first slots again instead of the slots from \<open>i\<close> on. Assigning \<open>[5, 6, 7]\<close> to
  \<open>[1, 2]\<close> (capacity \<open>4\<close>) gives size \<open>3\<close> with slot \<open>2\<close> never constructed.
  \<open>assign_copy_third_branch\<close> shows the same for every such pair with a non-empty
  destination; the out-of-line definition meets the claim (\<open>assign_copy_p000_ok\<close>),
  and the two definitions agree in every other case (\<open>assign_copy_agrees\<close>).
\<close>

theorem assign_copy_skips_tail:
  "map_sum id (\<lambda>s'. (s' 0, s' 1)) (assign_copy T_copy_throws_2 short_and_long 0 1) =
     Inr (\<lparr>v_data = [Obj 5, Obj 6, Raw, Raw], v_size = 3\<rparr>,
          \<lparr>v_data = [Obj 5, Obj 6, Obj 7], v_size = 3\<rparr>)"
  by (simp add: assign_copy_def short_and_long_def Capacity_def Let_def
      uninitialized_copy_n_def slice_def T_copy_throws_2_def slot_at_def eval_nat_numeral)

text \<open>
  Claim C5. The Vector of \<open>advanced-vector/vector.h\<close> and the out-of-line Vector are
  meant to behave alike. They do not: assigning \<open>[5, 6, 7]\<close> to \<open>[1]\<close> (capacity
  \<open>3\<close>) gives \<open>[5, 6]\<close> and an unconstructed slot with the first and \<open>[5, 6, 7]\<close>
  with the second; erasing position \<open>1\<close> of \<open>[4, 5, 6]\<close> is undefined with the first,
  which assigns into the slot it has destroyed and leaves the last slot constructed in
  the storage, and leaves \<open>[4, 6]\<close> with the last slot raw with the second.
\<close>

theorem Vector_definitions_differ:
  "map_sum id (\<lambda>s'. s' 0) (assign_copy T_copy_throws_2 one_and_three 0 1) =
     Inr \<lparr>v_data = [Obj 5, Obj 6, Raw], v_size = 3\<rparr> \<and>
   map_sum id (\<lambda>s'. s' 0) (assign_copy_p000 T_copy_throws_2 one_and_three 0 1) =
     Inr \<lparr>v_data = [Obj 5, Obj 6, Obj 7], v_size = 3\<rparr> \<and>
   Erase T_copy_throws_2 \<lparr>v_data = [Obj 4, Obj 5, Obj 6], v_size = 3\<rparr> 1 = Inl Undefined \<and>
   Erase_storage \<lparr>v_data = [Obj 4, Obj 5, Obj (6::nat)], v_size = 3\<rparr> 1 =
     (\<lparr>v_data = [Obj 4, Obj 6, Husk], v_size = 2\<rparr>, 1) \<and>
   Erase_p000 T_copy_throws_2 \<lparr>v_data = [Obj 4, Obj 5, Obj 6], v_size = 3\<rparr> 1 =
     Inr (\<lparr>v_data = [Obj 4, Obj 6, Raw], v_size = 2\<rparr>, 1)"
  by (simp add: assign_copy_def assign_copy_p000_def one_and_three_def Capacity_def Let_def
      uninitialized_copy_n_def slice_def T_copy_throws_2_def slot_at_def
      Erase_def Erase_p000_def Erase_storage_def PopBack_def destroy_at_def decr_def
      eval_nat_numeral)

section \<open>The invariant\<close>


































section \<open>Reserve and Resize\<close>

lemma take_value_constructed:
  assumes "m \<le> n" and "n \<le> length b"
  shows "take n (place b m (replicate (n - m) y)) = take m b @ replicate (n - m) y"
  by (rule nth_equalityI) (use assms in \<open>auto simp: nth_place nth_append\<close>)

lemma take_destroy_n_tail: "n \<le> length b \<Longrightarrow> take n (destroy_n b n k) = take n b"
  by (rule nth_equalityI) (auto simp: nth_destroy_n)

lemma slice_destroy_n: "n + k \<le> length b \<Longrightarrow> slice (destroy_n b n k) n k = replicate k Raw"
  by (rule nth_equalityI) (auto simp: nth_slice nth_destroy_n)

lemma drop_destroy_n: "n + k \<le> length b \<Longrightarrow> drop (n + k) (destroy_n b n k) = drop (n + k) b"
  by (rule nth_equalityI) (auto simp: nth_destroy_n)

lemma RawMemory_sized_ok:
  assumes "0 < n" and "n * sizeof_T T \<le> SIZE_MAX" and "\<not> new_throws (n * sizeof_T T)"
  shows "RawMemory_sized new_throws T n = Inr (Allocate n)"
  using assms by (simp add: RawMemory_sized_def)

lemma Reserve_ok:
  assumes inv: "v_size v \<le> Capacity v"
    and granted: "Capacity v < n \<Longrightarrow> n * sizeof_T T \<le> SIZE_MAX \<and> \<not> new_throws (n * sizeof_T T)"
    and quiet: "Capacity v < n \<Longrightarrow> first_throw (relocation_throws T) (elements v) = None"
  shows "\<exists>v1. Reserve new_throws T v n = Inr v1 \<and> elements v1 = elements v \<and>
               v_size v1 = v_size v \<and> Capacity v1 = max n (Capacity v)"
proof (cases "n \<le> Capacity v")
  case True
  then show ?thesis
    by (simp add: Reserve_def max_def)
next
  case False
  then have lt: "Capacity v < n" by simp
  from quiet [OF lt] have q: "first_throw (relocation_throws T) (slice (v_data v) 0 (v_size v)) = None"
    by (simp add: elements_def)
  from lt granted [OF lt] have new: "RawMemory_sized new_throws T n = Inr (Allocate n)"
    by (intro RawMemory_sized_ok) simp_all
  from inv lt have "take (v_size v) (place (Allocate n) 0 (take (v_size v) (v_data v))) =
      take (v_size v) (v_data v)"
    by (simp add: place_append Capacity_def)
  with False lt new ReplaceElementsInMemory_ok [OF q, of "Allocate n" 0] show ?thesis
    by (simp add: Reserve_def Let_def elements_def Capacity_def max_def)
qed

lemma Reserve_bad_alloc:
  assumes "Capacity v < n" and "n * sizeof_T T \<le> SIZE_MAX" and "new_throws (n * sizeof_T T)"
  shows "Reserve new_throws T v n = Inl (Threw (v, []))"
  using assms by (simp add: Reserve_def RawMemory_sized_def)

text \<open>
  Claim C10. \<open>Resize(n)\<close> on a vector with \<open>size_ <= capacity\<close>. For \<open>n\<close> above the
  size it appends \<open>n - size_\<close> value-initialised elements after the old ones, provided
  \<open>T()\<close> does not throw and, when the buffer has to grow, the request of
  \<open>n * sizeof(T)\<close> bytes does not wrap, \<open>operator new\<close> grants it and relocating the
  elements does not throw; the capacity is then the larger of \<open>n\<close> and the old
  capacity. When \<open>operator new\<close> throws, the vector is as it was. For \<open>n\<close> below the
  size it keeps the first \<open>n\<close> elements and destroys the others: the slots from \<open>n\<close>
  up to the old size are raw afterwards, the slots behind them and the capacity are
  unchanged. For \<open>n\<close> equal to the size it leaves the vector as it is. The size is
  \<open>n\<close> afterwards in every case in which the call returns.
\<close>

theorem Resize_sets_size:
  assumes inv: "size_le_capacity v"
  shows "(v_size v < n \<and> value_init T = Some d \<and>
          (Capacity v < n \<longrightarrow>
             n * sizeof_T T \<le> SIZE_MAX \<and> \<not> new_throws (n * sizeof_T T) \<and>
             first_throw (relocation_throws T) (elements v) = None) \<longrightarrow>
            (\<exists>v'. Resize new_throws T v n = Inr v' \<and>
                  elements v' = elements v @ replicate (n - v_size v) (Obj d) \<and>
                  v_size v' = n \<and> Capacity v' = max n (Capacity v))) \<and>
         (Capacity v < n \<and> n * sizeof_T T \<le> SIZE_MAX \<and> new_throws (n * sizeof_T T) \<longrightarrow>
            Resize new_throws T v n = Inl (Threw (v, []))) \<and>
         (n < v_size v \<longrightarrow>
            (\<exists>v'. Resize new_throws T v n = Inr v' \<and>
                  elements v' = take n (elements v) \<and> v_size v' = n \<and>
                  slice (v_data v') n (v_size v - n) = replicate (v_size v - n) Raw \<and>
                  drop (v_size v) (v_data v') = drop (v_size v) (v_data v) \<and>
                  Capacity v' = Capacity v)) \<and>
         (n = v_size v \<longrightarrow> Resize new_throws T v n = Inr v)"
proof (intro conjI impI)
  assume a: "v_size v < n \<and> value_init T = Some d \<and>
      (Capacity v < n \<longrightarrow>
         n * sizeof_T T \<le> SIZE_MAX \<and> \<not> new_throws (n * sizeof_T T) \<and>
         first_throw (relocation_throws T) (elements v) = None)"
  from inv have le: "v_size v \<le> Capacity v"
    by (simp add: size_le_capacity_def)
  from a have granted: "Capacity v < n \<Longrightarrow>
      n * sizeof_T T \<le> SIZE_MAX \<and> \<not> new_throws (n * sizeof_T T)"
    and quiet: "Capacity v < n \<Longrightarrow> first_throw (relocation_throws T) (elements v) = None"
    by simp_all
  from Reserve_ok [of v n T new_throws, OF le granted quiet] obtain v1 where
    r: "Reserve new_throws T v n = Inr v1" and e: "elements v1 = elements v"
    and s: "v_size v1 = v_size v" and c: "Capacity v1 = max n (Capacity v)"
    by blast
  from a s have m: "v_size v1 \<le> n" by simp
  from c have l: "n \<le> length (v_data v1)"
    by (simp add: Capacity_def)
  from a r s e c take_value_constructed [OF m l, of "Obj d"]
  show "\<exists>v'. Resize new_throws T v n = Inr v' \<and>
             elements v' = elements v @ replicate (n - v_size v) (Obj d) \<and> v_size v' = n \<and>
             Capacity v' = max n (Capacity v)"
    by (simp add: Resize_def uninitialized_value_construct_n_def elements_def Capacity_def)
next
  assume a: "Capacity v < n \<and> n * sizeof_T T \<le> SIZE_MAX \<and> new_throws (n * sizeof_T T)"
  with inv have "v_size v < n"
    by (simp add: size_le_capacity_def)
  with a Reserve_bad_alloc [of v n T new_throws]
  show "Resize new_throws T v n = Inl (Threw (v, []))"
    by (simp add: Resize_def)
next
  assume a: "n < v_size v"
  from inv a have n: "n \<le> length (v_data v)" and all: "n + (v_size v - n) \<le> length (v_data v)"
    by (simp_all add: size_le_capacity_def Capacity_def)
  from a have whole: "n + (v_size v - n) = v_size v"
    by simp
  from take_destroy_n_tail [OF n, of "v_size v - n"] slice_destroy_n [OF all]
    drop_destroy_n [OF all] a whole
  show "\<exists>v'. Resize new_throws T v n = Inr v' \<and> elements v' = take n (elements v) \<and>
             v_size v' = n \<and>
             slice (v_data v') n (v_size v - n) = replicate (v_size v - n) Raw \<and>
             drop (v_size v) (v_data v') = drop (v_size v) (v_data v) \<and>
             Capacity v' = Capacity v"
    by (simp add: Resize_def elements_def min_def Capacity_def)
next
  assume "n = v_size v"
  then show "Resize new_throws T v n = Inr v"
    by (simp add: Resize_def)
qed

theorem Resize_sets_size_witness:
  "(\<exists>v'. Resize (\<lambda>bytes. 64 < bytes) T_copy_throws_2
            \<lparr>v_data = [Obj 1, Obj 3], v_size = 2\<rparr> 4 = Inr v' \<and>
         elements v' = [Obj 1, Obj 3, Obj 0, Obj 0] \<and> v_size v' = 4 \<and> Capacity v' = 4) \<and>
   Resize (\<lambda>bytes. 64 < bytes) T_copy_throws_2 \<lparr>v_data = [Obj 1, Obj 3], v_size = 2\<rparr> 9 =
     Inl (Threw (\<lparr>v_data = [Obj 1, Obj 3], v_size = 2\<rparr>, [])) \<and>
   (\<exists>v'. Resize (\<lambda>bytes. 64 < bytes) T_copy_throws_2
            \<lparr>v_data = [Obj 1, Obj 3], v_size = 2\<rparr> 1 = Inr v' \<and>
         elements v' = [Obj 1] \<and> v_size v' = 1 \<and> slice (v_data v') 1 1 = [Raw] \<and>
         drop 2 (v_data v') = [] \<and> Capacity v' = 2) \<and>
   Resize (\<lambda>bytes. 64 < bytes) T_copy_throws_2 \<lparr>v_data = [Obj 1, Obj 3], v_size = 2\<rparr> 2 =
     Inr \<lparr>v_data = [Obj 1, Obj 3], v_size = 2\<rparr>"
proof -
  let ?v = "\<lparr>v_data = [Obj 1, Obj (3::nat)], v_size = 2\<rparr>"
  let ?new = "\<lambda>bytes::nat. 64 < bytes"
  have inv: "size_le_capacity ?v"
    by (simp add: size_le_capacity_def Capacity_def)
  have grow: "v_size ?v < 4 \<and> value_init T_copy_throws_2 = Some 0 \<and>
      (Capacity ?v < 4 \<longrightarrow>
         4 * sizeof_T T_copy_throws_2 \<le> SIZE_MAX \<and> \<not> ?new (4 * sizeof_T T_copy_throws_2) \<and>
         first_throw (relocation_throws T_copy_throws_2) (elements ?v) = None)"
    by (simp add: T_copy_throws_2_def relocation_throws_def elements_def SIZE_MAX_def)
  have refused: "Capacity ?v < 9 \<and> 9 * sizeof_T T_copy_throws_2 \<le> SIZE_MAX \<and>
      ?new (9 * sizeof_T T_copy_throws_2)"
    by (simp add: T_copy_throws_2_def Capacity_def SIZE_MAX_def)
  have shrink: "1 < v_size ?v" and same: "2 = v_size ?v"
    by simp_all
  have el: "elements ?v = [Obj 1, Obj 3]" and cap: "Capacity ?v = 2"
    by (simp_all add: elements_def Capacity_def)
  have rep: "replicate (4 - v_size ?v) (Obj (0::nat)) = [Obj 0, Obj 0]"
    by (simp add: eval_nat_numeral)
  from Resize_sets_size [OF inv, of 4 T_copy_throws_2 0 ?new] grow
  have "\<exists>v'. Resize ?new T_copy_throws_2 ?v 4 = Inr v' \<and>
         elements v' = elements ?v @ replicate (4 - v_size ?v) (Obj 0) \<and> v_size v' = 4 \<and>
         Capacity v' = max 4 (Capacity ?v)"
    by blast
  moreover from Resize_sets_size [OF inv, of 9 T_copy_throws_2 0 ?new] refused
  have "Resize ?new T_copy_throws_2 ?v 9 = Inl (Threw (?v, []))"
    by blast
  moreover from Resize_sets_size [OF inv, of 1 T_copy_throws_2 0 ?new] shrink
  have "\<exists>v'. Resize ?new T_copy_throws_2 ?v 1 = Inr v' \<and>
         elements v' = take 1 (elements ?v) \<and> v_size v' = 1 \<and>
         slice (v_data v') 1 (v_size ?v - 1) = replicate (v_size ?v - 1) Raw \<and>
         drop (v_size ?v) (v_data v') = drop (v_size ?v) (v_data ?v) \<and>
         Capacity v' = Capacity ?v"
    by blast
  moreover from Resize_sets_size [OF inv, of 2 T_copy_throws_2 0 ?new] same
  have "Resize ?new T_copy_throws_2 ?v 2 = Inr ?v"
    by blast
  ultimately show ?thesis
    unfolding el rep cap by simp
qed

end
